theory Spec2Isabelle
  imports Main "HOL-Library.Multiset" "HOL-Library.Sublist"
begin

section \<open>Data model\<close>

text \<open>
  A Go \<^verbatim>\<open>error\<close> is modelled by its message, the only thing the resource reads from
  it (through the \<^verbatim>\<open>%s\<close> and \<^verbatim>\<open>%v\<close> verbs of \<^verbatim>\<open>fmt.Errorf\<close>); a nil error is
  \<open>None\<close> of \<open>error option\<close>.
\<close>

datatype error = Error (message: string)

text \<open>\<^verbatim>\<open>fmt.Errorf("<prefix>%s", err)\<close> and \<^verbatim>\<open>fmt.Errorf("<prefix>%v", err)\<close>.\<close>

definition Errorf :: "string \<Rightarrow> error \<Rightarrow> error" where
  "Errorf ctx err = Error (ctx @ message err)"

text \<open>The two fields of \<^verbatim>\<open>directory.Member\<close> that the resource reads and writes.\<close>

record Member =
  Role :: string
  Email :: string

text \<open>
  The directory service \<^verbatim>\<open>config.directory\<close> is an external collaborator. It is a
  parameter of the model: three operations on a remote state \<open>'st\<close> of any type, each
  returning what the Go call \<^verbatim>\<open>...Do()\<close> returns together with the next remote state.
  \<^item> \<^verbatim>\<open>Members.List(gid).Roles(role).Do()\<close>
  \<^item> \<^verbatim>\<open>Members.Insert(gid, member).Do()\<close>
  \<^item> \<^verbatim>\<open>Members.Delete(gid, m).Do()\<close>
\<close>

record 'st directory =
  Members_List :: "string \<Rightarrow> string \<Rightarrow> 'st \<Rightarrow> (error + Member list) \<times> 'st"
  Members_Insert :: "string \<Rightarrow> Member \<Rightarrow> 'st \<Rightarrow> (error + Member) \<times> 'st"
  Members_Delete :: "string \<Rightarrow> string \<Rightarrow> 'st \<Rightarrow> error option \<times> 'st"

text \<open>
  The calls made on the service are observed through a trace: every call is appended
  with its arguments and with the error the service answered (\<open>None\<close> for success).
  The trace is the only addition of the model to the state the source handles.
\<close>

datatype call =
    ListCall string string
  | InsertCall string Member
  | DeleteCall string string

type_synonym entry = "call \<times> error option"

record 'st world =
  remote :: 'st
  trace :: "entry list"

text \<open>The entries appended to the trace between two worlds.\<close>

definition issued :: "'st world \<Rightarrow> 'st world \<Rightarrow> entry list" where
  "issued w w' = drop (length (trace w)) (trace w')"

text \<open>
  \<^verbatim>\<open>schema.ResourceData\<close>: the identifier, the \<^verbatim>\<open>group\<close> attribute and the three
  set-valued attributes, keyed by field name. A \<^verbatim>\<open>schema.Set\<close> is kept as a list of
  its elements: for the data an operation receives, the list that \<^verbatim>\<open>List()\<close>
  enumerates. \<^verbatim>\<open>d.Set\<close> of a slice builds a set, which drops repeated elements; the
  library then enumerates the set in the order of the hash codes of its elements, which
  is not modelled: \<open>d_Set\<close> keeps the elements in the order of the slice, and what is
  stated about a field that \<open>d_Set\<close> wrote is stated about the set of its elements only.
\<close>

record ResourceData =
  d_Id :: string
  d_group :: string
  d_sets :: "string \<Rightarrow> string list"

definition d_Set :: "ResourceData \<Rightarrow> string \<Rightarrow> string list \<Rightarrow> ResourceData" where
  "d_Set d key vals = d\<lparr>d_sets := (d_sets d)(key := remdups vals)\<rparr>"

definition rolesMap :: "(string \<times> string) list" where
  "rolesMap = [(''MANAGER'', ''managers''), (''MEMBER'', ''members''), (''OWNER'', ''owners'')]"

text \<open>\<^verbatim>\<open>rolesMap[role]\<close>: a missing key reads as the empty string.\<close>

definition rolesMap_at :: "string \<Rightarrow> string" where
  "rolesMap_at role = (case map_of rolesMap role of Some field \<Rightarrow> field | None \<Rightarrow> [])"

section \<open>Iteration over Go maps\<close>

text \<open>
  A \<^verbatim>\<open>map[string]struct{}\<close> is modelled by the list of its keys, without repetition.
  The order in which \<^verbatim>\<open>range\<close> visits the keys of a map is chosen by the Go runtime.
  The model takes that choice as a parameter: a function \<open>rng\<close> from the key list of
  the map to the order of the visit, and for \<^verbatim>\<open>rolesMap\<close> the list of roles in the
  order visited. Every admissible choice is a rearrangement of the keys.
\<close>

definition range_keys :: "(string list \<Rightarrow> string list) \<Rightarrow> bool" where
  "range_keys rng \<longleftrightarrow> (\<forall>ks. mset (rng ks) = mset ks)"

definition range_rolesMap :: "string list \<Rightarrow> bool" where
  "range_rolesMap roles \<longleftrightarrow> mset roles = mset (map fst rolesMap)"

text \<open>\<^verbatim>\<open>sm[s] = struct{}{}\<close> and \<^verbatim>\<open>delete(cfgMap, k)\<close>.\<close>

definition map_store :: "string \<Rightarrow> string list \<Rightarrow> string list" where
  "map_store s sm = (if s \<in> set sm then sm else sm @ [s])"

definition map_delete :: "string \<Rightarrow> string list \<Rightarrow> string list" where
  "map_delete k sm = removeAll k sm"

section \<open>The adapter functions\<close>

text \<open>\<^verbatim>\<open>getApiMembers\<close> returns the pair of Go results: the slice and the error.\<close>

definition getApiMembers ::
  "string \<Rightarrow> string \<Rightarrow> 'st directory \<Rightarrow> 'st world \<Rightarrow> (string list \<times> error option) \<times> 'st world" where
  "getApiMembers gid role config w =
     (case Members_List config gid role (remote w) of
        (Inl err, r) \<Rightarrow>
          (([], Some err), \<lparr>remote = r, trace = trace w @ [(ListCall gid role, Some err)]\<rparr>)
      | (Inr groupMembers, r) \<Rightarrow>
          ((foldl (\<lambda>apiMembers member.
                     if Role member = role then apiMembers @ [Email member] else apiMembers)
              [] groupMembers, None),
           \<lparr>remote = r, trace = trace w @ [(ListCall gid role, None)]\<rparr>))"

definition addMember ::
  "string \<Rightarrow> string \<Rightarrow> string \<Rightarrow> 'st directory \<Rightarrow> 'st world \<Rightarrow> error option \<times> 'st world" where
  "addMember m gid role config w =
     (let groupMember = \<lparr>Role = role, Email = m\<rparr> in
      case Members_Insert config gid groupMember (remote w) of
        (Inl err, r) \<Rightarrow>
          (Some (Errorf ''Error creating groupMember: '' err),
           \<lparr>remote = r, trace = trace w @ [(InsertCall gid groupMember, Some err)]\<rparr>)
      | (Inr createdGroupMember, r) \<Rightarrow>
          (None, \<lparr>remote = r, trace = trace w @ [(InsertCall gid groupMember, None)]\<rparr>))"

definition deleteMember ::
  "string \<Rightarrow> string \<Rightarrow> 'st directory \<Rightarrow> 'st world \<Rightarrow> error option \<times> 'st world" where
  "deleteMember m gid config w =
     (case Members_Delete config gid m (remote w) of
        (Some err, r) \<Rightarrow>
          (Some (Errorf ''Error deleting group: '' err),
           \<lparr>remote = r, trace = trace w @ [(DeleteCall gid m, Some err)]\<rparr>)
      | (None, r) \<Rightarrow>
          (None, \<lparr>remote = r, trace = trace w @ [(DeleteCall gid m, None)]\<rparr>))"

definition resourceRoleMembers :: "ResourceData \<Rightarrow> string \<Rightarrow> string list" where
  "resourceRoleMembers d key = d_sets d key"

section \<open>The reconciler\<close>

text \<open>The helper \<^verbatim>\<open>m\<close> of \<^verbatim>\<open>reconcileMembers\<close>: a slice to the map of its elements.\<close>

definition reconcileMembers_m :: "string list \<Rightarrow> string list" where
  "reconcileMembers_m vals = foldl (\<lambda>sm s. map_store s sm) [] vals"

text \<open>
  The first loop, over the keys \<open>ks\<close> of \<^verbatim>\<open>apiMap\<close> in the order of the visit. It
  returns the error, the map \<^verbatim>\<open>cfgMap\<close> as the loop leaves it, and the world.
\<close>

fun removeLoop ::
  "'st directory \<Rightarrow> string \<Rightarrow> string list \<Rightarrow> string list \<Rightarrow> 'st world
     \<Rightarrow> error option \<times> string list \<times> 'st world" where
  "removeLoop config gid [] cfgMap w = (None, cfgMap, w)"
| "removeLoop config gid (k # ks) cfgMap w =
     (if k \<notin> set cfgMap then
        (case deleteMember k gid config w of
           (Some err, w') \<Rightarrow> (Some err, cfgMap, w')
         | (None, w') \<Rightarrow> removeLoop config gid ks cfgMap w')
      else removeLoop config gid ks (map_delete k cfgMap) w)"

text \<open>The second loop, over the keys left in \<^verbatim>\<open>cfgMap\<close>.\<close>

fun addLoop ::
  "'st directory \<Rightarrow> string \<Rightarrow> string \<Rightarrow> string list \<Rightarrow> 'st world \<Rightarrow> error option \<times> 'st world" where
  "addLoop config gid role [] w = (None, w)"
| "addLoop config gid role (k # ks) w =
     (case addMember k gid role config w of
        (Some err, w') \<Rightarrow> (Some err, w')
      | (None, w') \<Rightarrow> addLoop config gid role ks w')"

definition reconcileMembers ::
  "(string list \<Rightarrow> string list) \<Rightarrow> string list \<Rightarrow> string list \<Rightarrow> 'st directory \<Rightarrow> string \<Rightarrow> string
     \<Rightarrow> 'st world \<Rightarrow> error option \<times> 'st world" where
  "reconcileMembers rng cfgMembers apiMembers config gid role w =
     (let cfgMap = reconcileMembers_m cfgMembers;
          apiMap = reconcileMembers_m apiMembers
      in case removeLoop config gid (rng apiMap) cfgMap w of
           (Some err, cfgMap', w') \<Rightarrow> (Some err, w')
         | (None, cfgMap', w') \<Rightarrow> addLoop config gid role (rng cfgMap') w')"

section \<open>The lifecycle operations\<close>

text \<open>
  The loop over the roles that \<^verbatim>\<open>resourceGroupMembersCreate\<close> and
  \<^verbatim>\<open>resourceGroupMembersUpdate\<close> both contain, the same but for the prefix of the
  error message, which is the parameter \<open>ctx\<close>. The roles are given in the order in
  which \<^verbatim>\<open>range rolesMap\<close> visits them; \<open>rng role\<close> is the order of the visits inside
  the reconciliation of that role.
\<close>

fun reconcileRoles ::
  "string \<Rightarrow> (string \<Rightarrow> string list \<Rightarrow> string list) \<Rightarrow> ResourceData \<Rightarrow> 'st directory \<Rightarrow> string
     \<Rightarrow> string list \<Rightarrow> 'st world \<Rightarrow> error option \<times> 'st world" where
  "reconcileRoles ctx rng d config gid [] w = (None, w)"
| "reconcileRoles ctx rng d config gid (role # roles) w =
     (let cfgMembers = resourceRoleMembers d (rolesMap_at role) in
      case getApiMembers gid role config w of
        ((apiMembers, Some err), w1) \<Rightarrow> (Some (Errorf ctx err), w1)
      | ((apiMembers, None), w1) \<Rightarrow>
          (case reconcileMembers (rng role) cfgMembers apiMembers config gid role w1 of
             (Some err, w2) \<Rightarrow> (Some (Errorf ctx err), w2)
           | (None, w2) \<Rightarrow> reconcileRoles ctx rng d config gid roles w2))"

fun readLoop ::
  "'st directory \<Rightarrow> ResourceData \<Rightarrow> string list \<Rightarrow> 'st world
     \<Rightarrow> error option \<times> ResourceData \<times> 'st world" where
  "readLoop config d [] w = (None, d, w)"
| "readLoop config d (role # roles) w =
     (case getApiMembers (d_Id d) role config w of
        ((roleMembers, Some err), w') \<Rightarrow> (Some err, d, w')
      | ((roleMembers, None), w') \<Rightarrow>
          readLoop config (d_Set d (rolesMap_at role) roleMembers) roles w')"

definition resourceGroupMembersRead ::
  "string list \<Rightarrow> ResourceData \<Rightarrow> 'st directory \<Rightarrow> 'st world
     \<Rightarrow> error option \<times> ResourceData \<times> 'st world" where
  "resourceGroupMembersRead readRoles d config w =
     (case readLoop config d readRoles w of
        (Some err, d', w') \<Rightarrow> (Some err, d', w')
      | (None, d', w') \<Rightarrow> (None, d'\<lparr>d_group := d_Id d'\<rparr>, w'))"

definition resourceGroupMembersCreate ::
  "string list \<Rightarrow> (string \<Rightarrow> string list \<Rightarrow> string list) \<Rightarrow> string list \<Rightarrow> ResourceData
     \<Rightarrow> 'st directory \<Rightarrow> 'st world \<Rightarrow> error option \<times> ResourceData \<times> 'st world" where
  "resourceGroupMembersCreate roles rng readRoles d config w =
     (let gid = d_group d in
      case reconcileRoles ''Error adding members: '' rng d config gid roles w of
        (Some err, w') \<Rightarrow> (Some err, d, w')
      | (None, w') \<Rightarrow> resourceGroupMembersRead readRoles (d\<lparr>d_Id := gid\<rparr>) config w')"

definition resourceGroupMembersUpdate ::
  "string list \<Rightarrow> (string \<Rightarrow> string list \<Rightarrow> string list) \<Rightarrow> string list \<Rightarrow> ResourceData
     \<Rightarrow> 'st directory \<Rightarrow> 'st world \<Rightarrow> error option \<times> ResourceData \<times> 'st world" where
  "resourceGroupMembersUpdate roles rng readRoles d config w =
     (let gid = d_group d in
      case reconcileRoles ''Error updating memberships: '' rng d config gid roles w of
        (Some err, w') \<Rightarrow> (Some err, d, w')
      | (None, w') \<Rightarrow> resourceGroupMembersRead readRoles d config w')"

text \<open>
  The inner loop of \<^verbatim>\<open>resourceGroupMembersDelete\<close>: the result of each
  \<^verbatim>\<open>deleteMember\<close> is dropped.
\<close>

fun deleteAll :: "'st directory \<Rightarrow> string \<Rightarrow> string list \<Rightarrow> 'st world \<Rightarrow> 'st world" where
  "deleteAll config gid [] w = w"
| "deleteAll config gid (s # roleMembers) w =
     deleteAll config gid roleMembers (snd (deleteMember s gid config w))"

fun deleteRoles :: "'st directory \<Rightarrow> ResourceData \<Rightarrow> string list \<Rightarrow> 'st world \<Rightarrow> 'st world" where
  "deleteRoles config d [] w = w"
| "deleteRoles config d (role # roles) w =
     (let roleMembers = resourceRoleMembers d (rolesMap_at role) in
      deleteRoles config d roles (deleteAll config (d_Id d) roleMembers w))"

definition resourceGroupMembersDelete ::
  "string list \<Rightarrow> ResourceData \<Rightarrow> 'st directory \<Rightarrow> 'st world
     \<Rightarrow> error option \<times> ResourceData \<times> 'st world" where
  "resourceGroupMembersDelete roles d config w =
     (let w' = deleteRoles config d roles w in (None, d\<lparr>d_Id := []\<rparr>, w'))"

section \<open>Trace entries of successful calls\<close>

abbreviation okDelete :: "string \<Rightarrow> string \<Rightarrow> entry" where
  "okDelete gid k \<equiv> (DeleteCall gid k, None)"

abbreviation okInsert :: "string \<Rightarrow> string \<Rightarrow> string \<Rightarrow> entry" where
  "okInsert gid role k \<equiv> (InsertCall gid \<lparr>Role = role, Email = k\<rparr>, None)"

section \<open>The keys the two loops act on\<close>

text \<open>
  The keys of \<^verbatim>\<open>apiMap\<close> that are not keys of \<^verbatim>\<open>cfgMap\<close>, in the order in which the
  first loop visits them, and the keys left in \<^verbatim>\<open>cfgMap\<close>, in the order in which the
  second loop visits them.
\<close>

abbreviation removed :: "(string list \<Rightarrow> string list) \<Rightarrow> string list \<Rightarrow> string list \<Rightarrow> string list" where
  "removed rng cfgMembers apiMembers \<equiv>
     filter (\<lambda>k. k \<notin> set cfgMembers) (rng (reconcileMembers_m apiMembers))"

abbreviation added :: "(string list \<Rightarrow> string list) \<Rightarrow> string list \<Rightarrow> string list \<Rightarrow> string list" where
  "added rng cfgMembers apiMembers \<equiv>
     rng (filter (\<lambda>k. k \<notin> set apiMembers) (reconcileMembers_m cfgMembers))"

section \<open>Directories for the samples\<close>

text \<open>
  Modelled from the spec: the remote directory service is not part of the repository.
  \<open>fakeDirectory\<close> has the behaviour section 4.2 gives the remote side. The store maps a
  group and a member to the one role the member holds in the group (an association
  list, read with \<open>map_of\<close>). Listing returns the members stored under the role;
  inserting a member the group already has is an error, as is deleting a member it does
  not have; no call fails otherwise.
\<close>

type_synonym store = "((string \<times> string) \<times> string) list"

definition fake_List :: "string \<Rightarrow> string \<Rightarrow> store \<Rightarrow> (error + Member list) \<times> store" where
  "fake_List gid role s =
     (Inr (map (\<lambda>((g, e), r). \<lparr>Role = r, Email = e\<rparr>)
             (filter (\<lambda>((g, e), r). g = gid \<and> r = role \<and> map_of s (g, e) = Some r) s)), s)"

definition fake_Insert :: "string \<Rightarrow> Member \<Rightarrow> store \<Rightarrow> (error + Member) \<times> store" where
  "fake_Insert gid member s =
     (if map_of s (gid, Email member) \<noteq> None then (Inl (Error ''Member already exists.''), s)
      else (Inr member, ((gid, Email member), Role member) # s))"

definition fake_Delete :: "string \<Rightarrow> string \<Rightarrow> store \<Rightarrow> error option \<times> store" where
  "fake_Delete gid k s =
     (if map_of s (gid, k) = None then (Some (Error ''Resource Not Found: memberKey''), s)
      else (None, filter (\<lambda>(key, r). key \<noteq> (gid, k)) s))"

definition fakeDirectory :: "store directory" where
  "fakeDirectory =
     \<lparr>Members_List = fake_List, Members_Insert = fake_Insert, Members_Delete = fake_Delete\<rparr>"









text \<open>
  Directories that behave as a store with one role per member of a group, whatever their
  remote state is: \<open>\<alpha>\<close> reads from the remote state the role each member holds in each
  group. Listing always answers and changes nothing, and the records of the requested
  role among its answer are the members that hold the role; an insertion that succeeds
  puts the member under the role of the record; a deletion that succeeds removes the
  member. Insertions and deletions may fail. \<open>held\<close> is the set of the members that
  hold a role in a group.
\<close>

definition held :: "((string \<times> string) \<rightharpoonup> string) \<Rightarrow> string \<Rightarrow> string \<Rightarrow> string set" where
  "held M gid role = {e. M (gid, e) = Some role}"

definition store_adapter :: "'st directory \<Rightarrow> ('st \<Rightarrow> (string \<times> string) \<rightharpoonup> string) \<Rightarrow> bool" where
  "store_adapter config \<alpha> \<longleftrightarrow>
     (\<forall>gid role st. \<exists>records st'.
        Members_List config gid role st = (Inr records, st') \<and> \<alpha> st' = \<alpha> st \<and>
        Email ` {member \<in> set records. Role member = role} = held (\<alpha> st) gid role) \<and>
     (\<forall>gid member st created st'.
        Members_Insert config gid member st = (Inr created, st') \<longrightarrow>
        \<alpha> st' = (\<alpha> st)((gid, Email member) \<mapsto> Role member)) \<and>
     (\<forall>gid k st st'.
        Members_Delete config gid k st = (None, st') \<longrightarrow> \<alpha> st' = (\<alpha> st)((gid, k) := None))"

text \<open>A world of the fake directory: group \<open>g\<close> has two members, no call was made yet.\<close>

definition sampleWorld :: "store world" where
  "sampleWorld =
     \<lparr>remote = [((''g'', ''b@x''), ''MEMBER''), ((''g'', ''c@x''), ''MEMBER'')], trace = []\<rparr>"

text \<open>
  A directory whose listing fails once its budget of listings is used up, and whose
  other calls always succeed: the remote state is the number of listings still answered.
\<close>

definition budgetDirectory :: "nat directory" where
  "budgetDirectory =
     \<lparr>Members_List = (\<lambda>gid role n.
        if n = 0 then (Inl (Error ''quota exceeded''), n) else (Inr [], n - 1)),
      Members_Insert = (\<lambda>gid member n. (Inr member, n)),
      Members_Delete = (\<lambda>gid k n. (None, n))\<rparr>"

text \<open>
  A directory whose listing ignores the role asked for: the remote state is the list of
  records it answers with. Its other calls always succeed.
\<close>

definition echoDirectory :: "Member list directory" where
  "echoDirectory =
     \<lparr>Members_List = (\<lambda>gid role records. (Inr records, records)),
      Members_Insert = (\<lambda>gid member records. (Inr member, records)),
      Members_Delete = (\<lambda>gid k records. (None, records))\<rparr>"

text \<open>Recorded state of group \<open>g\<close>: one owner, one member, no manager.\<close>

definition sampleData :: ResourceData where
  "sampleData =
     \<lparr>d_Id = ''g'', d_group = ''g'',
      d_sets = (\<lambda>key. if key = ''owners'' then [''z@x'']
                      else if key = ''members'' then [''b@x''] else [])\<rparr>"

text \<open>Desired state of group \<open>g\<close> with the same member under two roles.\<close>

definition conflictData :: ResourceData where
  "conflictData =
     \<lparr>d_Id = [], d_group = ''g'',
      d_sets = (\<lambda>key. if key = ''owners'' then [''x@x'']
                      else if key = ''members'' then [''x@x''] else [])\<rparr>"

text \<open>Desired state of group \<open>g\<close> with one member, before creation: no identifier yet.\<close>

definition plainData :: ResourceData where
  "plainData =
     \<lparr>d_Id = [], d_group = ''g'',
      d_sets = (\<lambda>key. if key = ''members'' then [''a@x''] else [])\<rparr>"





section \<open>Unfolding the model on the samples\<close>

lemmas run_defs = reconcileMembers_def reconcileMembers_m_def map_store_def map_delete_def
  deleteMember_def addMember_def getApiMembers_def fakeDirectory_def fake_List_def
  fake_Insert_def fake_Delete_def Errorf_def sampleWorld_def

lemmas life_defs = resourceRoleMembers_def rolesMap_at_def rolesMap_def d_Set_def
  resourceGroupMembersRead_def resourceGroupMembersCreate_def resourceGroupMembersUpdate_def


lemma range_keys_rev: "range_keys rev"
  by (simp add: range_keys_def)

section \<open>Traces of the adapter functions and of the two loops\<close>

lemma m_foldl:
  "distinct acc \<Longrightarrow>
   distinct (foldl (\<lambda>sm s. map_store s sm) acc vals) \<and>
   set (foldl (\<lambda>sm s. map_store s sm) acc vals) = set acc \<union> set vals"
  by (induction vals arbitrary: acc) (auto simp: map_store_def)

lemma distinct_m: "distinct (reconcileMembers_m vals)"
  using m_foldl [of "[]" vals] by (simp add: reconcileMembers_m_def)

lemma set_m: "set (reconcileMembers_m vals) = set vals"
  using m_foldl [of "[]" vals] by (simp add: reconcileMembers_m_def)

lemma range_keys_set: "range_keys rng \<Longrightarrow> set (rng ks) = set ks"
  unfolding range_keys_def by (metis set_mset_mset)

lemma range_keys_distinct: "range_keys rng \<Longrightarrow> distinct (rng ks) = distinct ks"
  unfolding range_keys_def by (metis mset_eq_imp_distinct_iff)

lemma issued_append: "trace w' = trace w @ es \<Longrightarrow> issued w w' = es"
  by (simp add: issued_def)

lemma deleteMember_None:
  "deleteMember k gid config w = (None, w') \<Longrightarrow> trace w' = trace w @ [okDelete gid k]"
  by (auto simp: deleteMember_def split: prod.splits option.splits)

lemma deleteMember_Some:
  "deleteMember k gid config w = (Some e, w') \<Longrightarrow>
   \<exists>e0. trace w' = trace w @ [(DeleteCall gid k, Some e0)] \<and> e = Errorf ''Error deleting group: '' e0"
  by (auto simp: deleteMember_def split: prod.splits option.splits)

lemma addMember_None:
  "addMember k gid role config w = (None, w') \<Longrightarrow>
   trace w' = trace w @ [okInsert gid role k]"
  by (auto simp: addMember_def Let_def split: prod.splits sum.splits)

lemma addMember_Some:
  "addMember k gid role config w = (Some e, w') \<Longrightarrow>
   \<exists>e0. trace w' = trace w @ [(InsertCall gid \<lparr>Role = role, Email = k\<rparr>, Some e0)]
      \<and> e = Errorf ''Error creating groupMember: '' e0"
  by (auto simp: addMember_def Let_def split: prod.splits sum.splits)

lemma removeLoop_None:
  "distinct ks \<Longrightarrow> removeLoop config gid ks cfgMap w = (None, cfgMap', w') \<Longrightarrow>
   cfgMap' = filter (\<lambda>k. k \<notin> set ks) cfgMap \<and>
   trace w' = trace w @ map (okDelete gid) (filter (\<lambda>k. k \<notin> set cfgMap) ks)"
proof (induction ks arbitrary: cfgMap w)
  case Nil
  then show ?case by simp
next
  case (Cons k ks)
  show ?case
  proof (cases "k \<in> set cfgMap")
    case True
    with Cons.prems have run: "removeLoop config gid ks (map_delete k cfgMap) w = (None, cfgMap', w')"
      by simp
    from Cons.prems have k: "k \<notin> set ks" and d: "distinct ks" by simp_all
    have f1: "filter (\<lambda>x. x \<notin> set ks) (map_delete k cfgMap) = filter (\<lambda>x. x \<notin> set (k # ks)) cfgMap"
      by (induction cfgMap) (auto simp: map_delete_def)
    have f2: "filter (\<lambda>x. x \<notin> set (map_delete k cfgMap)) ks = filter (\<lambda>x. x \<notin> set cfgMap) ks"
      using k by (intro filter_cong) (auto simp: map_delete_def)
    from Cons.IH [OF d run] True show ?thesis by (simp add: f1 f2)
  next
    case False
    with Cons.prems obtain w1 where del: "deleteMember k gid config w = (None, w1)"
      and run: "removeLoop config gid ks cfgMap w1 = (None, cfgMap', w')"
      by (auto split: prod.splits option.splits)
    from Cons.prems have d: "distinct ks" by simp
    have f1: "filter (\<lambda>x. x \<noteq> k \<and> x \<notin> set ks) cfgMap = filter (\<lambda>x. x \<notin> set ks) cfgMap"
      using False by (intro filter_cong) auto
    from Cons.IH [OF d run] deleteMember_None [OF del] False show ?thesis by (simp add: f1)
  qed
qed

lemma removeLoop_Some:
  "distinct ks \<Longrightarrow> removeLoop config gid ks cfgMap w = (Some e, cfgMap', w') \<Longrightarrow>
   \<exists>p k s e0. filter (\<lambda>k. k \<notin> set cfgMap) ks = p @ k # s \<and>
     trace w' = trace w @ map (okDelete gid) p @ [(DeleteCall gid k, Some e0)] \<and>
     e = Errorf ''Error deleting group: '' e0"
proof (induction ks arbitrary: cfgMap w)
  case Nil
  then show ?case by simp
next
  case (Cons k ks)
  from Cons.prems have k: "k \<notin> set ks" and d: "distinct ks" by simp_all
  show ?case
  proof (cases "k \<in> set cfgMap")
    case True
    with Cons.prems have run: "removeLoop config gid ks (map_delete k cfgMap) w = (Some e, cfgMap', w')"
      by simp
    have f2: "filter (\<lambda>x. x \<notin> set (map_delete k cfgMap)) ks = filter (\<lambda>x. x \<notin> set cfgMap) ks"
      using k by (intro filter_cong) (auto simp: map_delete_def)
    from Cons.IH [OF d run] True show ?thesis by (simp add: f2)
  next
    case False
    show ?thesis
    proof (cases "deleteMember k gid config w")
      case (Pair r w1)
      show ?thesis
      proof (cases r)
        case None
        with Pair False Cons.prems have run: "removeLoop config gid ks cfgMap w1 = (Some e, cfgMap', w')"
          by simp
        from Cons.IH [OF d run] obtain p k' s e0 where
          "filter (\<lambda>k. k \<notin> set cfgMap) ks = p @ k' # s"
          "trace w' = trace w1 @ map (okDelete gid) p @ [(DeleteCall gid k', Some e0)]"
          "e = Errorf ''Error deleting group: '' e0"
          by blast
        with deleteMember_None [of k gid config w w1] Pair None False
        have "filter (\<lambda>k. k \<notin> set cfgMap) (k # ks) = (k # p) @ k' # s \<and>
          trace w' = trace w @ map (okDelete gid) (k # p) @ [(DeleteCall gid k', Some e0)] \<and>
          e = Errorf ''Error deleting group: '' e0"
          by simp
        then show ?thesis by blast
      next
        case (Some e1)
        with Pair False Cons.prems have "e1 = e" "w1 = w'" by simp_all
        with deleteMember_Some [of k gid config w e w'] Pair Some obtain e0 where
          "trace w' = trace w @ [(DeleteCall gid k, Some e0)]" "e = Errorf ''Error deleting group: '' e0"
          by auto
        with False have "filter (\<lambda>k. k \<notin> set cfgMap) (k # ks) = [] @ k # filter (\<lambda>k. k \<notin> set cfgMap) ks \<and>
          trace w' = trace w @ map (okDelete gid) [] @ [(DeleteCall gid k, Some e0)] \<and>
          e = Errorf ''Error deleting group: '' e0"
          by simp
        then show ?thesis by blast
      qed
    qed
  qed
qed

lemma addLoop_None:
  "addLoop config gid role ks w = (None, w') \<Longrightarrow>
   trace w' = trace w @ map (okInsert gid role) ks"
proof (induction ks arbitrary: w)
  case Nil
  then show ?case by simp
next
  case (Cons k ks)
  then obtain w1 where add: "addMember k gid role config w = (None, w1)"
    and run: "addLoop config gid role ks w1 = (None, w')"
    by (auto split: prod.splits option.splits)
  from Cons.IH [OF run] addMember_None [OF add] show ?case by simp
qed

lemma addLoop_Some:
  "addLoop config gid role ks w = (Some e, w') \<Longrightarrow>
   \<exists>p k s e0. ks = p @ k # s \<and>
     trace w' = trace w @ map (okInsert gid role) p
        @ [(InsertCall gid \<lparr>Role = role, Email = k\<rparr>, Some e0)] \<and>
     e = Errorf ''Error creating groupMember: '' e0"
proof (induction ks arbitrary: w)
  case Nil
  then show ?case by simp
next
  case (Cons k ks)
  show ?case
  proof (cases "addMember k gid role config w")
    case (Pair r w1)
    show ?thesis
    proof (cases r)
      case None
      with Pair Cons.prems have run: "addLoop config gid role ks w1 = (Some e, w')" by simp
      from Cons.IH [OF run] obtain p k' s e0 where
        "ks = p @ k' # s"
        "trace w' = trace w1 @ map (okInsert gid role) p
           @ [(InsertCall gid \<lparr>Role = role, Email = k'\<rparr>, Some e0)]"
        "e = Errorf ''Error creating groupMember: '' e0"
        by blast
      with addMember_None [of k gid role config w w1] Pair None
      have "k # ks = (k # p) @ k' # s \<and>
        trace w' = trace w @ map (okInsert gid role) (k # p)
           @ [(InsertCall gid \<lparr>Role = role, Email = k'\<rparr>, Some e0)] \<and>
        e = Errorf ''Error creating groupMember: '' e0"
        by simp
      then show ?thesis by blast
    next
      case (Some e1)
      with Pair Cons.prems have "e1 = e" "w1 = w'" by simp_all
      with addMember_Some [of k gid role config w e w'] Pair Some obtain e0 where
        "trace w' = trace w @ [(InsertCall gid \<lparr>Role = role, Email = k\<rparr>, Some e0)]"
        "e = Errorf ''Error creating groupMember: '' e0"
        by auto
      then have "k # ks = [] @ k # ks \<and>
        trace w' = trace w @ map (okInsert gid role) []
           @ [(InsertCall gid \<lparr>Role = role, Email = k\<rparr>, Some e0)] \<and>
        e = Errorf ''Error creating groupMember: '' e0"
        by simp
      then show ?thesis by blast
    qed
  qed
qed

section \<open>The runs of the reconciler\<close>

lemma removed_props:
  assumes "range_keys rng"
  shows "distinct (removed rng cfgMembers apiMembers)"
    and "set (removed rng cfgMembers apiMembers) = set apiMembers - set cfgMembers"
  using assms by (auto simp: range_keys_set range_keys_distinct set_m distinct_m)

lemma added_props:
  assumes "range_keys rng"
  shows "distinct (added rng cfgMembers apiMembers)"
    and "set (added rng cfgMembers apiMembers) = set cfgMembers - set apiMembers"
  using assms by (auto simp: range_keys_set range_keys_distinct set_m distinct_m)

lemma reconcileMembers_split:
  assumes rng: "range_keys rng"
    and run: "reconcileMembers rng cfgMembers apiMembers config gid role w = (res, w')"
  shows "(\<exists>e cfgMap'. removeLoop config gid (rng (reconcileMembers_m apiMembers))
                (reconcileMembers_m cfgMembers) w = (Some e, cfgMap', w')
              \<and> res = Some e)
         \<or> (\<exists>w1. removeLoop config gid (rng (reconcileMembers_m apiMembers))
                (reconcileMembers_m cfgMembers) w
                 = (None, filter (\<lambda>k. k \<notin> set apiMembers) (reconcileMembers_m cfgMembers), w1)
              \<and> trace w1 = trace w @ map (okDelete gid) (removed rng cfgMembers apiMembers)
              \<and> addLoop config gid role (added rng cfgMembers apiMembers) w1 = (res, w'))"
proof -
  let ?ks = "rng (reconcileMembers_m apiMembers)"
  let ?cfgMap = "reconcileMembers_m cfgMembers"
  have dks: "distinct ?ks"
    using rng by (simp add: range_keys_distinct distinct_m)
  have sks: "set ?ks = set apiMembers"
    using rng by (simp add: range_keys_set set_m)
  obtain r1 cfgMap' w1 where loop1: "removeLoop config gid ?ks ?cfgMap w = (r1, cfgMap', w1)"
    using prod_cases3 by blast
  show ?thesis
  proof (cases r1)
    case (Some e)
    with loop1 run have "res = Some e" "w1 = w'"
      by (simp_all add: reconcileMembers_def)
    with loop1 Some show ?thesis by simp
  next
    case None
    from removeLoop_None [OF dks loop1 [unfolded None]] have
      c': "cfgMap' = filter (\<lambda>k. k \<notin> set apiMembers) ?cfgMap"
      and t1: "trace w1 = trace w @ map (okDelete gid) (removed rng cfgMembers apiMembers)"
      by (simp_all add: sks set_m)
    from loop1 None run c' have "addLoop config gid role (added rng cfgMembers apiMembers) w1 = (res, w')"
      by (simp add: reconcileMembers_def)
    with loop1 None c' t1 show ?thesis by simp
  qed
qed

lemma reconcileMembers_None:
  assumes rng: "range_keys rng"
    and run: "reconcileMembers rng cfgMembers apiMembers config gid role w = (None, w')"
  shows "issued w w' = map (okDelete gid) (removed rng cfgMembers apiMembers)
            @ map (okInsert gid role) (added rng cfgMembers apiMembers)"
proof -
  from reconcileMembers_split [OF rng run] obtain w1 where
    t1: "trace w1 = trace w @ map (okDelete gid) (removed rng cfgMembers apiMembers)"
    and loop2: "addLoop config gid role (added rng cfgMembers apiMembers) w1 = (None, w')"
    by auto
  from addLoop_None [OF loop2] t1 show ?thesis
    by (simp add: issued_append)
qed

lemma reconcileMembers_Some:
  assumes rng: "range_keys rng"
    and run: "reconcileMembers rng cfgMembers apiMembers config gid role w = (Some e, w')"
  shows "(\<exists>p k s e0. removed rng cfgMembers apiMembers = p @ k # s \<and>
            issued w w' = map (okDelete gid) p @ [(DeleteCall gid k, Some e0)] \<and>
            e = Errorf ''Error deleting group: '' e0)
         \<or> (\<exists>p k s e0. added rng cfgMembers apiMembers = p @ k # s \<and>
            issued w w' = map (okDelete gid) (removed rng cfgMembers apiMembers)
               @ map (okInsert gid role) p @ [(InsertCall gid \<lparr>Role = role, Email = k\<rparr>, Some e0)] \<and>
            e = Errorf ''Error creating groupMember: '' e0)"
proof -
  have dks: "distinct (rng (reconcileMembers_m apiMembers))"
    using rng by (simp add: range_keys_distinct distinct_m)
  from reconcileMembers_split [OF rng run] show ?thesis
  proof (elim disjE exE conjE)
    fix e1 cfgMap'
    assume loop1: "removeLoop config gid (rng (reconcileMembers_m apiMembers))
        (reconcileMembers_m cfgMembers) w = (Some e1, cfgMap', w')"
      and "Some e = Some e1"
    then have e1: "e1 = e" by simp
    from removeLoop_Some [OF dks loop1] obtain p k s e0 where
      "removed rng cfgMembers apiMembers = p @ k # s"
      "trace w' = trace w @ map (okDelete gid) p @ [(DeleteCall gid k, Some e0)]"
      "e1 = Errorf ''Error deleting group: '' e0"
      unfolding set_m by (elim exE conjE)
    with e1 have "removed rng cfgMembers apiMembers = p @ k # s \<and>
            issued w w' = map (okDelete gid) p @ [(DeleteCall gid k, Some e0)] \<and>
            e = Errorf ''Error deleting group: '' e0"
      by (simp add: issued_append)
    then show ?thesis by (intro disjI1 exI)
  next
    fix w1
    assume t1: "trace w1 = trace w @ map (okDelete gid) (removed rng cfgMembers apiMembers)"
      and loop2: "addLoop config gid role (added rng cfgMembers apiMembers) w1 = (Some e, w')"
    from addLoop_Some [OF loop2] obtain p k s e0 where
      "added rng cfgMembers apiMembers = p @ k # s"
      "trace w' = trace w1 @ map (okInsert gid role) p
           @ [(InsertCall gid \<lparr>Role = role, Email = k\<rparr>, Some e0)]"
      "e = Errorf ''Error creating groupMember: '' e0"
      by (elim exE conjE)
    with t1 have "added rng cfgMembers apiMembers = p @ k # s \<and>
            issued w w' = map (okDelete gid) (removed rng cfgMembers apiMembers)
               @ map (okInsert gid role) p @ [(InsertCall gid \<lparr>Role = role, Email = k\<rparr>, Some e0)] \<and>
            e = Errorf ''Error creating groupMember: '' e0"
      by (simp add: issued_append)
    then show ?thesis by (intro disjI2 exI)
  qed
qed

section \<open>Minimality and fail-fast of the reconciler\<close>

text \<open>
  C1 (minimality and idempotence). In every run of \<^verbatim>\<open>reconcileMembers\<close>, for every order
  in which the maps are visited: when every call issued on the directory succeeded, the
  result is nil and the calls issued are one successful \<^verbatim>\<open>Delete\<close> for each member of
  \<open>actual - desired\<close>, followed by one successful \<^verbatim>\<open>Insert\<close> (with the role) for each
  member of \<open>desired - actual\<close>, and nothing else: no member of both sets is touched.
  When the two lists have the same elements, no call is issued and the result is nil.
\<close>

theorem reconcileMembers_minimal:
  assumes "range_keys rng"
    and "reconcileMembers rng cfgMembers apiMembers config gid role w = (res, w')"
  shows "((\<forall>x\<in>set (issued w w'). snd x = None) \<longrightarrow>
            res = None \<and>
            (\<exists>R A. distinct R \<and> set R = set apiMembers - set cfgMembers \<and>
                   distinct A \<and> set A = set cfgMembers - set apiMembers \<and>
                   issued w w' = map (okDelete gid) R @ map (okInsert gid role) A)) \<and>
         (set cfgMembers = set apiMembers \<longrightarrow> res = None \<and> issued w w' = [])"
proof -
  define R where "R = removed rng cfgMembers apiMembers"
  define A where "A = added rng cfgMembers apiMembers"
  have R: "distinct R" "set R = set apiMembers - set cfgMembers"
    unfolding R_def by (rule removed_props [OF assms(1)])+
  have A: "distinct A" "set A = set cfgMembers - set apiMembers"
    unfolding A_def by (rule added_props [OF assms(1)])+
  have shape: "issued w w' = map (okDelete gid) R @ map (okInsert gid role) A" if "res = None"
    unfolding R_def A_def
    using reconcileMembers_None [OF assms(1) assms(2) [unfolded that]] .
  have failing: "\<exists>x\<in>set (issued w w'). snd x \<noteq> None" if "res = Some e" for e
    using reconcileMembers_Some [OF assms(1) assms(2) [unfolded that]]
    by (elim disjE exE conjE) simp_all
  have first: "res = None \<and>
            (\<exists>R A. distinct R \<and> set R = set apiMembers - set cfgMembers \<and>
                   distinct A \<and> set A = set cfgMembers - set apiMembers \<and>
                   issued w w' = map (okDelete gid) R @ map (okInsert gid role) A)"
    if ok: "\<forall>x\<in>set (issued w w'). snd x = None"
  proof -
    from ok failing have none: "res = None" by (cases res) auto
    from R A shape [OF none] have "distinct R \<and> set R = set apiMembers - set cfgMembers \<and>
                   distinct A \<and> set A = set cfgMembers - set apiMembers \<and>
                   issued w w' = map (okDelete gid) R @ map (okInsert gid role) A"
      by simp
    then have "\<exists>R A. distinct R \<and> set R = set apiMembers - set cfgMembers \<and>
                   distinct A \<and> set A = set cfgMembers - set apiMembers \<and>
                   issued w w' = map (okDelete gid) R @ map (okInsert gid role) A"
      by (intro exI)
    with none show ?thesis by simp
  qed
  have second: "res = None \<and> issued w w' = []" if eq: "set cfgMembers = set apiMembers"
  proof -
    from R(2) A(2) eq have empty: "R = []" "A = []" by simp_all
    have none: "res = None"
    proof (cases res)
      case (Some e)
      from reconcileMembers_Some [OF assms(1) assms(2) [unfolded Some], folded R_def A_def] empty
      show ?thesis by simp
    qed simp
    with shape empty show ?thesis by simp
  qed
  from first second show ?thesis by simp
qed

theorem reconcileMembers_minimal_witness:
  "range_keys rev \<and>
   reconcileMembers rev [''a@x'', ''b@x''] [''b@x'', ''c@x''] fakeDirectory ''g'' ''MEMBER'' sampleWorld
     = (None, \<lparr>remote = [((''g'', ''a@x''), ''MEMBER''), ((''g'', ''b@x''), ''MEMBER'')],
          trace = [okDelete ''g'' ''c@x'', okInsert ''g'' ''MEMBER'' ''a@x'']\<rparr>) \<and>
   (\<exists>R A. distinct R \<and> set R = set [''b@x'', ''c@x''] - set [''a@x'', ''b@x''] \<and>
      distinct A \<and> set A = set [''a@x'', ''b@x''] - set [''b@x'', ''c@x''] \<and>
      [okDelete ''g'' ''c@x'', okInsert ''g'' ''MEMBER'' ''a@x'']
        = map (okDelete ''g'') R @ map (okInsert ''g'' ''MEMBER'') A) \<and>
   set [''b@x'', ''c@x'', ''b@x''] = set [''c@x'', ''b@x''] \<and>
   reconcileMembers rev [''b@x'', ''c@x'', ''b@x''] [''c@x'', ''b@x''] fakeDirectory ''g'' ''MEMBER''
      sampleWorld = (None, sampleWorld)"
proof -
  let ?w1 = "\<lparr>remote = [((''g'', ''a@x''), ''MEMBER''), ((''g'', ''b@x''), ''MEMBER'')],
          trace = [okDelete ''g'' ''c@x'', okInsert ''g'' ''MEMBER'' ''a@x'']\<rparr>"
  have run: "reconcileMembers rev [''a@x'', ''b@x''] [''b@x'', ''c@x''] fakeDirectory ''g'' ''MEMBER''
      sampleWorld = (None, ?w1)"
    by (simp add: run_defs)
  have new: "issued sampleWorld ?w1 = [okDelete ''g'' ''c@x'', okInsert ''g'' ''MEMBER'' ''a@x'']"
    by (simp add: issued_def sampleWorld_def)
  have ok: "\<forall>x\<in>set (issued sampleWorld ?w1). snd x = None"
    by (simp add: new)
  have eq: "set [''b@x'', ''c@x'', ''b@x''] = set [''c@x'', ''b@x'']"
    by auto
  obtain res w' where run2: "reconcileMembers rev [''b@x'', ''c@x'', ''b@x''] [''c@x'', ''b@x'']
      fakeDirectory ''g'' ''MEMBER'' sampleWorld = (res, w')"
    by (rule prod.exhaust)
  have same: "w' = sampleWorld"
    using run2 by (simp add: run_defs)
  from reconcileMembers_minimal [OF range_keys_rev run, THEN conjunct1, THEN mp, OF ok, THEN conjunct2]
    reconcileMembers_minimal [OF range_keys_rev run2, THEN conjunct2, THEN mp, OF eq, THEN conjunct1]
    run run2 same new eq range_keys_rev
  show ?thesis by simp
qed

text \<open>
  C3 (fail-fast on remove, removals before additions). In every run of
  \<^verbatim>\<open>reconcileMembers\<close>, if a \<^verbatim>\<open>Delete\<close> call for member \<open>k\<close> was answered with an
  error \<open>e0\<close>, then the result is the error \<^verbatim>\<open>deleteMember\<close> built from \<open>e0\<close>, that call is
  the last call issued, the calls before it are successful deletions of members that come
  before \<open>k\<close> in an enumeration \<open>p @ k # s\<close> of \<open>actual - desired\<close> (the members \<open>s\<close>
  are left alone), and no \<^verbatim>\<open>Insert\<close> call is issued.
\<close>

theorem reconcileMembers_remove_fails:
  assumes "range_keys rng"
    and "reconcileMembers rng cfgMembers apiMembers config gid role w = (res, w')"
    and "(DeleteCall g k, Some e0) \<in> set (issued w w')"
  shows "res = Some (Errorf ''Error deleting group: '' e0) \<and> g = gid \<and>
         (\<exists>p s. distinct (p @ k # s) \<and> set (p @ k # s) = set apiMembers - set cfgMembers \<and>
                issued w w' = map (okDelete gid) p @ [(DeleteCall gid k, Some e0)]) \<and>
         (\<forall>x\<in>set (issued w w'). \<forall>g' member. fst x \<noteq> InsertCall g' member)"
proof (cases res)
  case None
  from reconcileMembers_None [OF assms(1) assms(2) [unfolded None]] assms(3)
  have False by auto
  then show ?thesis ..
next
  case (Some e)
  define R where "R = removed rng cfgMembers apiMembers"
  have R: "distinct R" "set R = set apiMembers - set cfgMembers"
    unfolding R_def by (rule removed_props [OF assms(1)])+
  from reconcileMembers_Some [OF assms(1) assms(2) [unfolded Some], folded R_def]
  show ?thesis
  proof (elim disjE exE conjE)
    fix p k' s e0'
    assume split: "R = p @ k' # s"
      and tr: "issued w w' = map (okDelete gid) p @ [(DeleteCall gid k', Some e0')]"
      and e: "e = Errorf ''Error deleting group: '' e0'"
    from assms(3) tr have same: "g = gid" "k' = k" "e0' = e0" by auto
    from R split same tr have "distinct (p @ k # s) \<and> set (p @ k # s) = set apiMembers - set cfgMembers \<and>
                issued w w' = map (okDelete gid) p @ [(DeleteCall gid k, Some e0)]"
      by simp
    then have "\<exists>p s. distinct (p @ k # s) \<and> set (p @ k # s) = set apiMembers - set cfgMembers \<and>
                issued w w' = map (okDelete gid) p @ [(DeleteCall gid k, Some e0)]"
      by (intro exI)
    moreover have "\<forall>x\<in>set (issued w w'). \<forall>g' member. fst x \<noteq> InsertCall g' member"
      using tr by auto
    ultimately show ?thesis using Some e same by simp
  next
    fix p k' s e0'
    assume "issued w w' = map (okDelete gid) R
               @ map (okInsert gid role) p @ [(InsertCall gid \<lparr>Role = role, Email = k'\<rparr>, Some e0')]"
    with assms(3) have False by auto
    then show ?thesis ..
  qed
qed

theorem reconcileMembers_remove_fails_witness:
  "range_keys rev \<and>
   reconcileMembers rev [''a@x''] [''c@x'', ''z@x'', ''b@x''] fakeDirectory ''g'' ''MEMBER'' sampleWorld
     = (Some (Errorf ''Error deleting group: '' (Error ''Resource Not Found: memberKey'')),
        \<lparr>remote = [((''g'', ''c@x''), ''MEMBER'')],
          trace = [okDelete ''g'' ''b@x'',
                   (DeleteCall ''g'' ''z@x'', Some (Error ''Resource Not Found: memberKey''))]\<rparr>) \<and>
   (\<exists>p s. distinct (p @ ''z@x'' # s) \<and>
      set (p @ ''z@x'' # s) = set [''c@x'', ''z@x'', ''b@x''] - set [''a@x''] \<and>
      [okDelete ''g'' ''b@x'', (DeleteCall ''g'' ''z@x'', Some (Error ''Resource Not Found: memberKey''))]
        = map (okDelete ''g'') p
            @ [(DeleteCall ''g'' ''z@x'', Some (Error ''Resource Not Found: memberKey''))])"
proof -
  let ?e0 = "Error ''Resource Not Found: memberKey''"
  let ?w1 = "\<lparr>remote = [((''g'', ''c@x''), ''MEMBER'')],
          trace = [okDelete ''g'' ''b@x'', (DeleteCall ''g'' ''z@x'', Some ?e0)]\<rparr>"
  obtain res where run: "reconcileMembers rev [''a@x''] [''c@x'', ''z@x'', ''b@x''] fakeDirectory
      ''g'' ''MEMBER'' sampleWorld = (res, ?w1)"
    by (simp add: run_defs)
  have new: "issued sampleWorld ?w1 = [okDelete ''g'' ''b@x'', (DeleteCall ''g'' ''z@x'', Some ?e0)]"
    by (simp add: issued_def sampleWorld_def)
  have failed: "(DeleteCall ''g'' ''z@x'', Some ?e0) \<in> set (issued sampleWorld ?w1)"
    by (simp add: new)
  from reconcileMembers_remove_fails [OF range_keys_rev run failed] run new range_keys_rev
  show ?thesis by simp
qed

text \<open>
  C4 (fail-fast on add). In every run of \<^verbatim>\<open>reconcileMembers\<close>, if an \<^verbatim>\<open>Insert\<close> call
  was answered with an error \<open>e0\<close>, then the result is the error \<^verbatim>\<open>addMember\<close> built
  from \<open>e0\<close>, every removal has succeeded before, that call is the last call issued, and
  the insertions before it are successful insertions of members that come before the failing
  one in an enumeration \<open>p @ k # s\<close> of \<open>desired - actual\<close>: no member of \<open>s\<close> is added.
\<close>

theorem reconcileMembers_add_fails:
  assumes "range_keys rng"
    and "reconcileMembers rng cfgMembers apiMembers config gid role w = (res, w')"
    and "(InsertCall g member, Some e0) \<in> set (issued w w')"
  shows "res = Some (Errorf ''Error creating groupMember: '' e0) \<and> g = gid \<and> Role member = role \<and>
         (\<exists>R p s. distinct R \<and> set R = set apiMembers - set cfgMembers \<and>
                  distinct (p @ Email member # s) \<and>
                  set (p @ Email member # s) = set cfgMembers - set apiMembers \<and>
                  issued w w' = map (okDelete gid) R @ map (okInsert gid role) p
                     @ [(InsertCall gid member, Some e0)])"
proof (cases res)
  case None
  from reconcileMembers_None [OF assms(1) assms(2) [unfolded None]] assms(3)
  have False by auto
  then show ?thesis ..
next
  case (Some e)
  define R where "R = removed rng cfgMembers apiMembers"
  define A where "A = added rng cfgMembers apiMembers"
  have R: "distinct R" "set R = set apiMembers - set cfgMembers"
    unfolding R_def by (rule removed_props [OF assms(1)])+
  have A: "distinct A" "set A = set cfgMembers - set apiMembers"
    unfolding A_def by (rule added_props [OF assms(1)])+
  from reconcileMembers_Some [OF assms(1) assms(2) [unfolded Some], folded R_def A_def]
  show ?thesis
  proof (elim disjE exE conjE)
    fix p k' s e0'
    assume "issued w w' = map (okDelete gid) p @ [(DeleteCall gid k', Some e0')]"
    with assms(3) have False by auto
    then show ?thesis ..
  next
    fix p k s e0'
    assume split: "A = p @ k # s"
      and tr: "issued w w' = map (okDelete gid) R
               @ map (okInsert gid role) p @ [(InsertCall gid \<lparr>Role = role, Email = k\<rparr>, Some e0')]"
      and e: "e = Errorf ''Error creating groupMember: '' e0'"
    from assms(3) tr have same: "g = gid" "member = \<lparr>Role = role, Email = k\<rparr>" "e0' = e0" by auto
    from R A split same tr have "distinct R \<and> set R = set apiMembers - set cfgMembers \<and>
                  distinct (p @ Email member # s) \<and>
                  set (p @ Email member # s) = set cfgMembers - set apiMembers \<and>
                  issued w w' = map (okDelete gid) R @ map (okInsert gid role) p
                     @ [(InsertCall gid member, Some e0)]"
      by simp
    then have "\<exists>R p s. distinct R \<and> set R = set apiMembers - set cfgMembers \<and>
                  distinct (p @ Email member # s) \<and>
                  set (p @ Email member # s) = set cfgMembers - set apiMembers \<and>
                  issued w w' = map (okDelete gid) R @ map (okInsert gid role) p
                     @ [(InsertCall gid member, Some e0)]"
      by (intro exI)
    with Some e same show ?thesis by simp
  qed
qed

theorem reconcileMembers_add_fails_witness:
  "range_keys rev \<and>
   reconcileMembers rev [''a@x'', ''b@x''] [''c@x''] fakeDirectory ''g'' ''MEMBER'' sampleWorld
     = (Some (Errorf ''Error creating groupMember: '' (Error ''Member already exists.'')),
        \<lparr>remote = [((''g'', ''b@x''), ''MEMBER'')],
          trace = [okDelete ''g'' ''c@x'',
                   (InsertCall ''g'' \<lparr>Role = ''MEMBER'', Email = ''b@x''\<rparr>,
                    Some (Error ''Member already exists.''))]\<rparr>) \<and>
   (\<exists>R p s. distinct R \<and> set R = set [''c@x''] - set [''a@x'', ''b@x''] \<and>
      distinct (p @ ''b@x'' # s) \<and> set (p @ ''b@x'' # s) = set [''a@x'', ''b@x''] - set [''c@x''] \<and>
      [okDelete ''g'' ''c@x'',
       (InsertCall ''g'' \<lparr>Role = ''MEMBER'', Email = ''b@x''\<rparr>, Some (Error ''Member already exists.''))]
        = map (okDelete ''g'') R @ map (okInsert ''g'' ''MEMBER'') p
            @ [(InsertCall ''g'' \<lparr>Role = ''MEMBER'', Email = ''b@x''\<rparr>,
                Some (Error ''Member already exists.''))])"
proof -
  let ?e0 = "Error ''Member already exists.''"
  let ?w1 = "\<lparr>remote = [((''g'', ''b@x''), ''MEMBER'')],
          trace = [okDelete ''g'' ''c@x'',
                   (InsertCall ''g'' \<lparr>Role = ''MEMBER'', Email = ''b@x''\<rparr>, Some ?e0)]\<rparr>"
  obtain res where run: "reconcileMembers rev [''a@x'', ''b@x''] [''c@x''] fakeDirectory
      ''g'' ''MEMBER'' sampleWorld = (res, ?w1)"
    by (simp add: run_defs)
  have new: "issued sampleWorld ?w1 = [okDelete ''g'' ''c@x'',
                   (InsertCall ''g'' \<lparr>Role = ''MEMBER'', Email = ''b@x''\<rparr>, Some ?e0)]"
    by (simp add: issued_def sampleWorld_def)
  have failed: "(InsertCall ''g'' \<lparr>Role = ''MEMBER'', Email = ''b@x''\<rparr>, Some ?e0)
      \<in> set (issued sampleWorld ?w1)"
    by (simp add: new)
  from reconcileMembers_add_fails [OF range_keys_rev run failed] run new range_keys_rev
  show ?thesis by simp
qed

section \<open>The adapter functions: listing and the error of an insertion\<close>

lemma foldl_collect:
  "foldl (\<lambda>apiMembers member.
       if Role member = role then apiMembers @ [Email member] else apiMembers) acc groupMembers
   = acc @ map Email (filter (\<lambda>member. Role member = role) groupMembers)"
  by (induction groupMembers arbitrary: acc) simp_all

text \<open>
  C8 (defensive role filtering). When the listing call answers with records,
  \<^verbatim>\<open>getApiMembers\<close> returns, in their order, the emails of exactly those records whose
  role field equals the requested role, whatever roles the other records have, and no
  error. When the listing call fails, it returns that error and the empty slice.
\<close>

theorem getApiMembers_filters:
  "(Members_List config gid role (remote w) = (Inr groupMembers, r) \<longrightarrow>
      getApiMembers gid role config w
        = ((map Email (filter (\<lambda>member. Role member = role) groupMembers), None),
           \<lparr>remote = r, trace = trace w @ [(ListCall gid role, None)]\<rparr>)) \<and>
   (Members_List config gid role (remote w) = (Inl err, r) \<longrightarrow>
      getApiMembers gid role config w
        = (([], Some err), \<lparr>remote = r, trace = trace w @ [(ListCall gid role, Some err)]\<rparr>))"
  by (simp add: getApiMembers_def foldl_collect)

theorem getApiMembers_filters_witness:
  "Members_List echoDirectory ''g'' ''OWNER''
      [\<lparr>Role = ''OWNER'', Email = ''a@x''\<rparr>, \<lparr>Role = ''MEMBER'', Email = ''b@x''\<rparr>,
       \<lparr>Role = ''OWNER'', Email = ''c@x''\<rparr>]
     = (Inr [\<lparr>Role = ''OWNER'', Email = ''a@x''\<rparr>, \<lparr>Role = ''MEMBER'', Email = ''b@x''\<rparr>,
             \<lparr>Role = ''OWNER'', Email = ''c@x''\<rparr>],
        [\<lparr>Role = ''OWNER'', Email = ''a@x''\<rparr>, \<lparr>Role = ''MEMBER'', Email = ''b@x''\<rparr>,
         \<lparr>Role = ''OWNER'', Email = ''c@x''\<rparr>]) \<and>
   fst (getApiMembers ''g'' ''OWNER'' echoDirectory
      \<lparr>remote = [\<lparr>Role = ''OWNER'', Email = ''a@x''\<rparr>, \<lparr>Role = ''MEMBER'', Email = ''b@x''\<rparr>,
                 \<lparr>Role = ''OWNER'', Email = ''c@x''\<rparr>], trace = []\<rparr>)
     = ([''a@x'', ''c@x''], None) \<and>
   Members_List budgetDirectory ''g'' ''OWNER'' 0 = (Inl (Error ''quota exceeded''), 0) \<and>
   fst (getApiMembers ''g'' ''OWNER'' budgetDirectory \<lparr>remote = 0, trace = []\<rparr>)
     = ([], Some (Error ''quota exceeded''))"
proof -
  let ?records = "[\<lparr>Role = ''OWNER'', Email = ''a@x''\<rparr>, \<lparr>Role = ''MEMBER'', Email = ''b@x''\<rparr>,
       \<lparr>Role = ''OWNER'', Email = ''c@x''\<rparr>]"
  have list1: "Members_List echoDirectory ''g'' ''OWNER'' (remote \<lparr>remote = ?records, trace = []\<rparr>)
      = (Inr ?records, ?records)"
    by (simp add: echoDirectory_def)
  have list2: "Members_List budgetDirectory ''g'' ''OWNER'' (remote \<lparr>remote = 0, trace = []\<rparr>)
      = (Inl (Error ''quota exceeded''), 0)"
    by (simp add: budgetDirectory_def)
  from getApiMembers_filters [THEN conjunct1, THEN mp, OF list1]
    getApiMembers_filters [THEN conjunct2, THEN mp, OF list2] list1 list2
  show ?thesis by simp
qed

text \<open>
  C7 (add-error context), as stated: the message of the error of \<^verbatim>\<open>addMember\<close> embeds the
  member id and the role. It does not: on the fake directory, adding \<open>b@x\<close> as
  \<open>OWNER\<close> to a group that has the member fails with a message that holds neither.
\<close>

theorem addMember_error_counterexample:
  "Members_Insert fakeDirectory ''g'' \<lparr>Role = ''OWNER'', Email = ''b@x''\<rparr> (remote sampleWorld)
     = (Inl (Error ''Member already exists.''), remote sampleWorld) \<and>
   fst (addMember ''b@x'' ''g'' ''OWNER'' fakeDirectory sampleWorld)
     = Some (Error ''Error creating groupMember: Member already exists.'') \<and>
   \<not> sublist ''b@x'' ''Error creating groupMember: Member already exists.'' \<and>
   \<not> sublist ''OWNER'' ''Error creating groupMember: Member already exists.''"
  by (simp add: addMember_def fakeDirectory_def fake_Insert_def sampleWorld_def Errorf_def
      sublist_Cons_right)

text \<open>
  C7, amended: when the insert call fails with an error, \<^verbatim>\<open>addMember\<close> returns an error
  whose message is \<open>Error creating groupMember: \<close> followed by the message of that error,
  and nothing else; the member id and the role are passed to the insert call only.
\<close>

theorem addMember_error:
  assumes "Members_Insert config gid \<lparr>Role = role, Email = k\<rparr> (remote w) = (Inl err, r)"
  shows "addMember k gid role config w
     = (Some (Error (''Error creating groupMember: '' @ message err)),
        \<lparr>remote = r, trace = trace w @ [(InsertCall gid \<lparr>Role = role, Email = k\<rparr>, Some err)]\<rparr>)"
  using assms by (simp add: addMember_def Errorf_def)

theorem addMember_error_witness:
  "Members_Insert fakeDirectory ''g'' \<lparr>Role = ''OWNER'', Email = ''b@x''\<rparr> (remote sampleWorld)
     = (Inl (Error ''Member already exists.''), remote sampleWorld) \<and>
   addMember ''b@x'' ''g'' ''OWNER'' fakeDirectory sampleWorld
     = (Some (Error ''Error creating groupMember: Member already exists.''),
        \<lparr>remote = remote sampleWorld,
         trace = trace sampleWorld @ [(InsertCall ''g'' \<lparr>Role = ''OWNER'', Email = ''b@x''\<rparr>,
                    Some (Error ''Member already exists.''))]\<rparr>)"
proof -
  have ins: "Members_Insert fakeDirectory ''g'' \<lparr>Role = ''OWNER'', Email = ''b@x''\<rparr> (remote sampleWorld)
     = (Inl (Error ''Member already exists.''), remote sampleWorld)"
    by (simp add: fakeDirectory_def fake_Insert_def sampleWorld_def)
  from addMember_error [OF ins] ins show ?thesis by simp
qed

section \<open>Deletion\<close>

lemma deleteMember_calls:
  "\<exists>e. trace (snd (deleteMember s gid config w)) = trace w @ [(DeleteCall gid s, e)]"
  by (simp add: deleteMember_def split: prod.splits option.splits)

lemma deleteAll_calls:
  "\<exists>es. trace (deleteAll config gid roleMembers w) = trace w @ es \<and>
        map fst es = map (DeleteCall gid) roleMembers"
proof (induction roleMembers arbitrary: w)
  case Nil
  then show ?case by simp
next
  case (Cons s roleMembers)
  obtain e where one: "trace (snd (deleteMember s gid config w)) = trace w @ [(DeleteCall gid s, e)]"
    using deleteMember_calls by blast
  from Cons.IH [of "snd (deleteMember s gid config w)"] obtain es where
    "trace (deleteAll config gid roleMembers (snd (deleteMember s gid config w)))
       = trace (snd (deleteMember s gid config w)) @ es"
    "map fst es = map (DeleteCall gid) roleMembers"
    by blast
  with one have "trace (deleteAll config gid (s # roleMembers) w) = trace w @ ((DeleteCall gid s, e) # es) \<and>
    map fst ((DeleteCall gid s, e) # es) = map (DeleteCall gid) (s # roleMembers)"
    by simp
  then show ?case by (rule exI)
qed

lemma deleteRoles_calls:
  "\<exists>es. trace (deleteRoles config d roles w) = trace w @ es \<and>
        map fst es = concat (map (\<lambda>role. map (DeleteCall (d_Id d))
                                 (resourceRoleMembers d (rolesMap_at role))) roles)"
proof (induction roles arbitrary: w)
  case Nil
  then show ?case by simp
next
  case (Cons role roles)
  let ?w1 = "deleteAll config (d_Id d) (resourceRoleMembers d (rolesMap_at role)) w"
  from deleteAll_calls [of config "d_Id d" "resourceRoleMembers d (rolesMap_at role)" w]
  obtain es1 where one: "trace ?w1 = trace w @ es1"
    "map fst es1 = map (DeleteCall (d_Id d)) (resourceRoleMembers d (rolesMap_at role))"
    by blast
  from Cons.IH [of ?w1] obtain es where
    "trace (deleteRoles config d roles ?w1) = trace ?w1 @ es"
    "map fst es = concat (map (\<lambda>role. map (DeleteCall (d_Id d))
                                 (resourceRoleMembers d (rolesMap_at role))) roles)"
    by blast
  with one have "trace (deleteRoles config d (role # roles) w) = trace w @ (es1 @ es) \<and>
    map fst (es1 @ es) = concat (map (\<lambda>role. map (DeleteCall (d_Id d))
                                 (resourceRoleMembers d (rolesMap_at role))) (role # roles))"
    by simp
  then show ?case by (rule exI)
qed

lemma mset_concat_map_cong:
  "mset xs = mset ys \<Longrightarrow> mset (concat (map f xs)) = mset (concat (map f ys))"
proof -
  assume eq: "mset xs = mset ys"
  have "mset (concat (map f zs)) = (\<Sum>z\<in>#mset zs. mset (f z))" for zs
    by (induction zs) simp_all
  with eq show ?thesis by simp
qed

lemma rolesMap_at_fst: "p \<in> set rolesMap \<Longrightarrow> rolesMap_at (fst p) = snd p"
  by (auto simp: rolesMap_def rolesMap_at_def)

text \<open>
  C6 (Delete is best-effort and always succeeds). For every recorded state, every
  directory and every order of the roles, \<^verbatim>\<open>resourceGroupMembersDelete\<close> returns nil and
  clears the identifier, whatever the calls answer; the calls it issues are one
  \<^verbatim>\<open>Delete\<close> for each member recorded under each role, role after role, on the group
  of the identifier: as a multiset, the recorded members of the three fields of
  \<^verbatim>\<open>rolesMap\<close>.
\<close>

theorem resourceGroupMembersDelete_best_effort:
  assumes "range_rolesMap roles"
    and "resourceGroupMembersDelete roles d config w = (res, d', w')"
  shows "res = None \<and> d' = d\<lparr>d_Id := []\<rparr> \<and>
         map fst (issued w w')
           = concat (map (\<lambda>role. map (DeleteCall (d_Id d))
                                 (resourceRoleMembers d (rolesMap_at role))) roles) \<and>
         mset (map fst (issued w w'))
           = mset (concat (map (\<lambda>(role, field). map (DeleteCall (d_Id d))
                                 (resourceRoleMembers d field)) rolesMap))"
proof -
  let ?f = "\<lambda>role. map (DeleteCall (d_Id d)) (resourceRoleMembers d (rolesMap_at role))"
  from assms(2) have res: "res = None" "d' = d\<lparr>d_Id := []\<rparr>" "w' = deleteRoles config d roles w"
    by (simp_all add: resourceGroupMembersDelete_def)
  from deleteRoles_calls [of config d roles w] res(3) obtain es where
    "trace w' = trace w @ es" "map fst es = concat (map ?f roles)"
    by blast
  then have calls: "map fst (issued w w') = concat (map ?f roles)"
    by (simp add: issued_append)
  from assms(1) have "mset (concat (map ?f roles)) = mset (concat (map ?f (map fst rolesMap)))"
    unfolding range_rolesMap_def by (rule mset_concat_map_cong)
  also have "map ?f (map fst rolesMap)
      = map (\<lambda>(role, field). map (DeleteCall (d_Id d)) (resourceRoleMembers d field)) rolesMap"
    by (auto simp: rolesMap_at_fst)
  finally show ?thesis using res calls by simp
qed

theorem resourceGroupMembersDelete_best_effort_witness:
  "range_rolesMap [''OWNER'', ''MEMBER'', ''MANAGER''] \<and>
   resourceGroupMembersDelete [''OWNER'', ''MEMBER'', ''MANAGER''] sampleData fakeDirectory sampleWorld
     = (None, sampleData\<lparr>d_Id := []\<rparr>,
        \<lparr>remote = [((''g'', ''c@x''), ''MEMBER'')],
         trace = [(DeleteCall ''g'' ''z@x'', Some (Error ''Resource Not Found: memberKey'')),
                  okDelete ''g'' ''b@x'']\<rparr>) \<and>
   [DeleteCall ''g'' ''z@x'', DeleteCall ''g'' ''b@x'']
     = concat (map (\<lambda>role. map (DeleteCall (d_Id sampleData))
                                 (resourceRoleMembers sampleData (rolesMap_at role)))
          [''OWNER'', ''MEMBER'', ''MANAGER''])"
proof -
  let ?w1 = "\<lparr>remote = [((''g'', ''c@x''), ''MEMBER'')],
         trace = [(DeleteCall ''g'' ''z@x'', Some (Error ''Resource Not Found: memberKey'')),
                  okDelete ''g'' ''b@x'']\<rparr>"
  have roles: "range_rolesMap [''OWNER'', ''MEMBER'', ''MANAGER'']"
    by (simp add: range_rolesMap_def rolesMap_def)
  have run: "resourceGroupMembersDelete [''OWNER'', ''MEMBER'', ''MANAGER''] sampleData fakeDirectory
      sampleWorld = (None, sampleData\<lparr>d_Id := []\<rparr>, ?w1)"
    by (simp add: resourceGroupMembersDelete_def resourceRoleMembers_def rolesMap_at_def rolesMap_def
        sampleData_def sampleWorld_def deleteMember_def fakeDirectory_def fake_Delete_def)
  have new: "issued sampleWorld ?w1
      = [(DeleteCall ''g'' ''z@x'', Some (Error ''Resource Not Found: memberKey'')), okDelete ''g'' ''b@x'']"
    by (simp add: issued_def sampleWorld_def)
  from resourceGroupMembersDelete_best_effort [OF roles run] roles run new
  show ?thesis by simp
qed

section \<open>The loop over the roles\<close>

lemma reconcileRoles_append:
  "reconcileRoles ctx rng d config gid rs1 w = (None, w1) \<Longrightarrow>
   reconcileRoles ctx rng d config gid (rs1 @ rs) w = reconcileRoles ctx rng d config gid rs w1"
proof (induction rs1 arbitrary: w)
  case Nil
  then show ?case by simp
next
  case (Cons role rs1)
  from Cons.prems obtain apiMembers wa wb where
    fetch: "getApiMembers gid role config w = ((apiMembers, None), wa)"
    and rec: "reconcileMembers (rng role) (resourceRoleMembers d (rolesMap_at role)) apiMembers
                config gid role wa = (None, wb)"
    and rest: "reconcileRoles ctx rng d config gid rs1 wb = (None, w1)"
    by (auto simp: Let_def split: prod.splits option.splits)
  from Cons.IH [OF rest] fetch rec show ?case by (simp add: Let_def)
qed

lemma reconcileRoles_None_ctx:
  "reconcileRoles ctx rng d config gid roles w = (None, w1) \<Longrightarrow>
   reconcileRoles ctx' rng d config gid roles w = (None, w1)"
proof (induction roles arbitrary: w)
  case Nil
  then show ?case by simp
next
  case (Cons role roles)
  from Cons.prems obtain apiMembers wa wb where
    fetch: "getApiMembers gid role config w = ((apiMembers, None), wa)"
    and rec: "reconcileMembers (rng role) (resourceRoleMembers d (rolesMap_at role)) apiMembers
                config gid role wa = (None, wb)"
    and rest: "reconcileRoles ctx rng d config gid roles wb = (None, w1)"
    by (auto simp: Let_def split: prod.splits option.splits)
  from Cons.IH [OF rest] fetch rec show ?case by (simp add: Let_def)
qed

lemma reconcileRoles_failing_role:
  assumes before: "reconcileRoles ctx rng d config gid rs1 w = (None, w1)"
    and fails: "(\<exists>apiMembers. getApiMembers gid role config w1 = ((apiMembers, Some e0), w2)) \<or>
       (\<exists>apiMembers wa. getApiMembers gid role config w1 = ((apiMembers, None), wa) \<and>
          reconcileMembers (rng role) (resourceRoleMembers d (rolesMap_at role)) apiMembers
            config gid role wa = (Some e0, w2))"
  shows "reconcileRoles ctx' rng d config gid (rs1 @ role # rs2) w = (Some (Errorf ctx' e0), w2)"
proof -
  from fails have "reconcileRoles ctx' rng d config gid (role # rs2) w1 = (Some (Errorf ctx' e0), w2)"
    by (elim disjE exE conjE) (simp_all add: Let_def)
  with reconcileRoles_append [OF reconcileRoles_None_ctx [OF before], of ctx' "role # rs2"]
  show ?thesis by simp
qed

text \<open>
  C5 (sequential fail-fast across roles). Let the roles be visited in the order
  \<open>rs1 @ role # rs2\<close>. If the roles \<open>rs1\<close> are fetched and reconciled without error and
  then either the fetch of \<open>role\<close> or its reconciliation fails with \<open>e0\<close>, leaving the
  world \<open>w2\<close>, then Create and Update return \<open>e0\<close> wrapped in their context, with the
  resource data untouched and with the world \<open>w2\<close> of the failure: nothing is fetched,
  reconciled or called for the roles \<open>rs2\<close>, and the read-back is not run.
\<close>

theorem roles_fail_fast:
  assumes "reconcileRoles ctx rng d config (d_group d) rs1 w = (None, w1)"
    and "(\<exists>apiMembers. getApiMembers (d_group d) role config w1 = ((apiMembers, Some e0), w2)) \<or>
       (\<exists>apiMembers wa. getApiMembers (d_group d) role config w1 = ((apiMembers, None), wa) \<and>
          reconcileMembers (rng role) (resourceRoleMembers d (rolesMap_at role)) apiMembers
            config (d_group d) role wa = (Some e0, w2))"
  shows "resourceGroupMembersCreate (rs1 @ role # rs2) rng readRoles d config w
           = (Some (Errorf ''Error adding members: '' e0), d, w2) \<and>
         resourceGroupMembersUpdate (rs1 @ role # rs2) rng readRoles d config w
           = (Some (Errorf ''Error updating memberships: '' e0), d, w2)"
  using reconcileRoles_failing_role [OF assms, of "''Error adding members: ''" rs2]
    reconcileRoles_failing_role [OF assms, of "''Error updating memberships: ''" rs2]
  by (simp add: resourceGroupMembersCreate_def resourceGroupMembersUpdate_def)

theorem roles_fail_fast_witness:
  "reconcileRoles ''Error adding members: '' (\<lambda>role. rev) conflictData fakeDirectory ''g'' [''MEMBER'']
      \<lparr>remote = [], trace = []\<rparr>
     = (None, \<lparr>remote = [((''g'', ''x@x''), ''MEMBER'')],
          trace = [(ListCall ''g'' ''MEMBER'', None), okInsert ''g'' ''MEMBER'' ''x@x'']\<rparr>) \<and>
   resourceGroupMembersCreate [''MEMBER'', ''OWNER'', ''MANAGER''] (\<lambda>role. rev)
      [''MEMBER'', ''OWNER'', ''MANAGER''] conflictData fakeDirectory \<lparr>remote = [], trace = []\<rparr>
     = (Some (Error ''Error adding members: Error creating groupMember: Member already exists.''),
        conflictData,
        \<lparr>remote = [((''g'', ''x@x''), ''MEMBER'')],
         trace = [(ListCall ''g'' ''MEMBER'', None), okInsert ''g'' ''MEMBER'' ''x@x'',
                  (ListCall ''g'' ''OWNER'', None),
                  (InsertCall ''g'' \<lparr>Role = ''OWNER'', Email = ''x@x''\<rparr>,
                   Some (Error ''Member already exists.''))]\<rparr>) \<and>
   resourceGroupMembersUpdate [''MEMBER'', ''OWNER'', ''MANAGER''] (\<lambda>role. rev)
      [''MEMBER'', ''OWNER'', ''MANAGER''] conflictData fakeDirectory \<lparr>remote = [], trace = []\<rparr>
     = (Some (Error ''Error updating memberships: Error creating groupMember: Member already exists.''),
        conflictData,
        \<lparr>remote = [((''g'', ''x@x''), ''MEMBER'')],
         trace = [(ListCall ''g'' ''MEMBER'', None), okInsert ''g'' ''MEMBER'' ''x@x'',
                  (ListCall ''g'' ''OWNER'', None),
                  (InsertCall ''g'' \<lparr>Role = ''OWNER'', Email = ''x@x''\<rparr>,
                   Some (Error ''Member already exists.''))]\<rparr>)"
proof -
  let ?w = "\<lparr>remote = [], trace = []\<rparr> :: store world"
  let ?w1 = "\<lparr>remote = [((''g'', ''x@x''), ''MEMBER'')],
          trace = [(ListCall ''g'' ''MEMBER'', None), okInsert ''g'' ''MEMBER'' ''x@x'']\<rparr>"
  let ?wa = "\<lparr>remote = [((''g'', ''x@x''), ''MEMBER'')],
          trace = [(ListCall ''g'' ''MEMBER'', None), okInsert ''g'' ''MEMBER'' ''x@x'',
                   (ListCall ''g'' ''OWNER'', None)]\<rparr>"
  let ?w2 = "\<lparr>remote = [((''g'', ''x@x''), ''MEMBER'')],
         trace = [(ListCall ''g'' ''MEMBER'', None), okInsert ''g'' ''MEMBER'' ''x@x'',
                  (ListCall ''g'' ''OWNER'', None),
                  (InsertCall ''g'' \<lparr>Role = ''OWNER'', Email = ''x@x''\<rparr>,
                   Some (Error ''Member already exists.''))]\<rparr>"
  let ?e0 = "Errorf ''Error creating groupMember: '' (Error ''Member already exists.'')"
  have g: "d_group conflictData = ''g''"
    by (simp add: conflictData_def)
  have before: "reconcileRoles ''Error adding members: '' (\<lambda>role. rev) conflictData fakeDirectory
      (d_group conflictData) [''MEMBER''] ?w = (None, ?w1)"
    by (simp add: run_defs life_defs conflictData_def)
  have fetch: "getApiMembers (d_group conflictData) ''OWNER'' fakeDirectory ?w1 = (([], None), ?wa)"
    by (simp add: run_defs conflictData_def)
  have rec: "reconcileMembers rev (resourceRoleMembers conflictData (rolesMap_at ''OWNER'')) []
      fakeDirectory (d_group conflictData) ''OWNER'' ?wa = (Some ?e0, ?w2)"
    by (simp add: run_defs life_defs conflictData_def)
  from fetch rec have fails:
    "(\<exists>apiMembers. getApiMembers (d_group conflictData) ''OWNER'' fakeDirectory ?w1
         = ((apiMembers, Some ?e0), ?w2)) \<or>
     (\<exists>apiMembers wa. getApiMembers (d_group conflictData) ''OWNER'' fakeDirectory ?w1
         = ((apiMembers, None), wa) \<and>
        reconcileMembers ((\<lambda>role. rev) ''OWNER'')
          (resourceRoleMembers conflictData (rolesMap_at ''OWNER'')) apiMembers
          fakeDirectory (d_group conflictData) ''OWNER'' wa = (Some ?e0, ?w2))"
    by (intro disjI2 exI conjI)
  from roles_fail_fast [OF before fails, of "[''MANAGER'']" "[''MEMBER'', ''OWNER'', ''MANAGER'']"]
    before g
  show ?thesis by (simp add: Errorf_def)
qed

section \<open>The read-back of Create\<close>

lemma d_Id_d_Set: "d_Id (d_Set d key vals) = d_Id d"
  by (simp add: d_Set_def)

lemma getApiMembers_Some:
  "getApiMembers gid role config w = ((roleMembers, Some e), w') \<Longrightarrow>
   trace w' = trace w @ [(ListCall gid role, Some e)]"
  by (auto simp: getApiMembers_def split: prod.splits sum.splits)

lemma readLoop_Id: "readLoop config d roles w = (res, d', w') \<Longrightarrow> d_Id d' = d_Id d"
proof (induction roles arbitrary: d w)
  case Nil
  then show ?case by simp
next
  case (Cons role roles)
  show ?case
  proof (cases "getApiMembers (d_Id d) role config w")
    case (Pair r w1)
    obtain roleMembers err where r: "r = (roleMembers, err)" by (cases r)
    show ?thesis
    proof (cases err)
      case None
      with Pair r Cons.prems
      have "readLoop config (d_Set d (rolesMap_at role) roleMembers) roles w1 = (res, d', w')"
        by simp
      from Cons.IH [OF this] show ?thesis by (simp add: d_Id_d_Set)
    next
      case (Some e)
      with Pair r Cons.prems show ?thesis by simp
    qed
  qed
qed

lemma readLoop_Some:
  "readLoop config d roles w = (Some e, d', w') \<Longrightarrow>
   \<exists>role es. role \<in> set roles \<and> trace w' = trace w @ es @ [(ListCall (d_Id d) role, Some e)]"
proof (induction roles arbitrary: d w)
  case Nil
  then show ?case by simp
next
  case (Cons role roles)
  show ?case
  proof (cases "getApiMembers (d_Id d) role config w")
    case (Pair r w1)
    obtain roleMembers err where r: "r = (roleMembers, err)" by (cases r)
    show ?thesis
    proof (cases err)
      case None
      with Pair r Cons.prems
      have run: "readLoop config (d_Set d (rolesMap_at role) roleMembers) roles w1 = (Some e, d', w')"
        by simp
      from Pair r None have t1: "trace w1 = trace w @ [(ListCall (d_Id d) role, None)]"
        by (auto simp: getApiMembers_def split: prod.splits sum.splits)
      from Cons.IH [OF run] obtain role' es where
        "role' \<in> set roles" "trace w' = trace w1 @ es @ [(ListCall (d_Id d) role', Some e)]"
        by (auto simp: d_Id_d_Set)
      with t1 have "role' \<in> set (role # roles) \<and>
        trace w' = trace w @ ((ListCall (d_Id d) role, None) # es) @ [(ListCall (d_Id d) role', Some e)]"
        by simp
      then show ?thesis by (intro exI)
    next
      case (Some e1)
      with Pair r Cons.prems have "e1 = e" "w1 = w'" by simp_all
      with getApiMembers_Some [of "d_Id d" role config w roleMembers e w'] Pair r Some
      have "role \<in> set (role # roles) \<and>
        trace w' = trace w @ [] @ [(ListCall (d_Id d) role, Some e)]"
        by simp
      then show ?thesis by (intro exI)
    qed
  qed
qed

text \<open>
  C10 (Create sets the identifier before the read-back). If every role reconciles without
  error and the read-back, run on the resource data with the identifier set to the group
  id, fails with \<open>e\<close>, then Create returns what the read-back returns: the error \<open>e\<close>,
  which is the very error the failing listing call answered (the last call of the trace),
  with no context added, and resource data whose identifier is the group id.
\<close>

theorem Create_read_back_fails:
  assumes "reconcileRoles ''Error adding members: '' rng d config (d_group d) roles w = (None, w1)"
    and "resourceGroupMembersRead readRoles (d\<lparr>d_Id := d_group d\<rparr>) config w1 = (Some e, d', w')"
  shows "resourceGroupMembersCreate roles rng readRoles d config w = (Some e, d', w') \<and>
         d_Id d' = d_group d \<and>
         (\<exists>role es. role \<in> set readRoles \<and>
            trace w' = trace w1 @ es @ [(ListCall (d_group d) role, Some e)])"
proof -
  from assms have create: "resourceGroupMembersCreate roles rng readRoles d config w = (Some e, d', w')"
    by (simp add: resourceGroupMembersCreate_def)
  from assms(2) have loop: "readLoop config (d\<lparr>d_Id := d_group d\<rparr>) readRoles w1 = (Some e, d', w')"
    by (auto simp: resourceGroupMembersRead_def split: prod.splits option.splits)
  from readLoop_Id [OF loop] have id: "d_Id d' = d_group d" by simp
  from readLoop_Some [OF loop] have "\<exists>role es. role \<in> set readRoles \<and>
            trace w' = trace w1 @ es @ [(ListCall (d_group d) role, Some e)]"
    by simp
  with create id show ?thesis by simp
qed

theorem Create_read_back_fails_witness:
  "reconcileRoles ''Error adding members: '' (\<lambda>role. rev) plainData budgetDirectory ''g''
      [''MANAGER'', ''MEMBER'', ''OWNER''] \<lparr>remote = 4, trace = []\<rparr>
     = (None, \<lparr>remote = 1,
          trace = [(ListCall ''g'' ''MANAGER'', None), (ListCall ''g'' ''MEMBER'', None),
                   okInsert ''g'' ''MEMBER'' ''a@x'', (ListCall ''g'' ''OWNER'', None)]\<rparr>) \<and>
   fst (resourceGroupMembersCreate [''MANAGER'', ''MEMBER'', ''OWNER''] (\<lambda>role. rev)
      [''MEMBER'', ''OWNER'', ''MANAGER''] plainData budgetDirectory \<lparr>remote = 4, trace = []\<rparr>)
     = Some (Error ''quota exceeded'') \<and>
   d_Id (fst (snd (resourceGroupMembersCreate [''MANAGER'', ''MEMBER'', ''OWNER''] (\<lambda>role. rev)
      [''MEMBER'', ''OWNER'', ''MANAGER''] plainData budgetDirectory \<lparr>remote = 4, trace = []\<rparr>)))
     = ''g'' \<and>
   trace (snd (snd (resourceGroupMembersCreate [''MANAGER'', ''MEMBER'', ''OWNER''] (\<lambda>role. rev)
      [''MEMBER'', ''OWNER'', ''MANAGER''] plainData budgetDirectory \<lparr>remote = 4, trace = []\<rparr>)))
     = [(ListCall ''g'' ''MANAGER'', None), (ListCall ''g'' ''MEMBER'', None),
        okInsert ''g'' ''MEMBER'' ''a@x'', (ListCall ''g'' ''OWNER'', None),
        (ListCall ''g'' ''MEMBER'', None), (ListCall ''g'' ''OWNER'', Some (Error ''quota exceeded''))]"
proof -
  let ?w = "\<lparr>remote = 4, trace = []\<rparr> :: nat world"
  let ?w1 = "\<lparr>remote = 1,
          trace = [(ListCall ''g'' ''MANAGER'', None), (ListCall ''g'' ''MEMBER'', None),
                   okInsert ''g'' ''MEMBER'' ''a@x'', (ListCall ''g'' ''OWNER'', None)]\<rparr> :: nat world"
  have g: "d_group plainData = ''g''"
    by (simp add: plainData_def)
  have before: "reconcileRoles ''Error adding members: '' (\<lambda>role. rev) plainData budgetDirectory
      (d_group plainData) [''MANAGER'', ''MEMBER'', ''OWNER''] ?w = (None, ?w1)"
    by (simp add: run_defs life_defs plainData_def budgetDirectory_def)
  obtain d' w' where read: "resourceGroupMembersRead [''MEMBER'', ''OWNER'', ''MANAGER'']
      (plainData\<lparr>d_Id := d_group plainData\<rparr>) budgetDirectory ?w1
        = (Some (Error ''quota exceeded''), d', w')"
    and tr: "trace w' = trace ?w1
        @ [(ListCall ''g'' ''MEMBER'', None), (ListCall ''g'' ''OWNER'', Some (Error ''quota exceeded''))]"
    by (simp add: run_defs life_defs plainData_def budgetDirectory_def)
  from Create_read_back_fails [OF before read] before g tr
  show ?thesis by simp
qed

section \<open>The reconciler reads its inputs as sets\<close>

lemma reconcileMembers_calls:
  assumes rng: "range_keys rng"
    and run: "reconcileMembers rng cfgMembers apiMembers config gid role w = (res, w')"
  shows "\<exists>p q. prefix p (removed rng cfgMembers apiMembers) \<and>
           prefix q (added rng cfgMembers apiMembers) \<and>
           map fst (issued w w')
             = map (DeleteCall gid) p @ map (\<lambda>k. InsertCall gid \<lparr>Role = role, Email = k\<rparr>) q \<and>
           (res = None \<longrightarrow> p = removed rng cfgMembers apiMembers \<and>
              q = added rng cfgMembers apiMembers)"
proof (cases res)
  case None
  from reconcileMembers_None [OF rng run [unfolded None]] None
  have "prefix (removed rng cfgMembers apiMembers) (removed rng cfgMembers apiMembers) \<and>
           prefix (added rng cfgMembers apiMembers) (added rng cfgMembers apiMembers) \<and>
           map fst (issued w w')
             = map (DeleteCall gid) (removed rng cfgMembers apiMembers)
               @ map (\<lambda>k. InsertCall gid \<lparr>Role = role, Email = k\<rparr>) (added rng cfgMembers apiMembers) \<and>
           (res = None \<longrightarrow> removed rng cfgMembers apiMembers = removed rng cfgMembers apiMembers \<and>
              added rng cfgMembers apiMembers = added rng cfgMembers apiMembers)"
    by (simp add: comp_def)
  then show ?thesis by (intro exI)
next
  case (Some e)
  from reconcileMembers_Some [OF rng run [unfolded Some]] show ?thesis
  proof (elim disjE exE conjE)
    fix p k s e0
    assume split: "removed rng cfgMembers apiMembers = p @ k # s"
      and tr: "issued w w' = map (okDelete gid) p @ [(DeleteCall gid k, Some e0)]"
    have "prefix (p @ [k]) (removed rng cfgMembers apiMembers) \<and>
           prefix [] (added rng cfgMembers apiMembers) \<and>
           map fst (issued w w')
             = map (DeleteCall gid) (p @ [k]) @ map (\<lambda>k. InsertCall gid \<lparr>Role = role, Email = k\<rparr>) [] \<and>
           (res = None \<longrightarrow> p @ [k] = removed rng cfgMembers apiMembers \<and>
              [] = added rng cfgMembers apiMembers)"
      unfolding split tr using Some by (simp add: comp_def)
    then show ?thesis by (intro exI)
  next
    fix p k s e0
    assume split: "added rng cfgMembers apiMembers = p @ k # s"
      and tr: "issued w w' = map (okDelete gid) (removed rng cfgMembers apiMembers)
               @ map (okInsert gid role) p @ [(InsertCall gid \<lparr>Role = role, Email = k\<rparr>, Some e0)]"
    have "prefix (removed rng cfgMembers apiMembers) (removed rng cfgMembers apiMembers) \<and>
           prefix (p @ [k]) (added rng cfgMembers apiMembers) \<and>
           map fst (issued w w')
             = map (DeleteCall gid) (removed rng cfgMembers apiMembers)
               @ map (\<lambda>k. InsertCall gid \<lparr>Role = role, Email = k\<rparr>) (p @ [k]) \<and>
           (res = None \<longrightarrow> removed rng cfgMembers apiMembers = removed rng cfgMembers apiMembers \<and>
              p @ [k] = added rng cfgMembers apiMembers)"
      unfolding split tr using Some by (simp add: comp_def)
    then show ?thesis by (intro exI)
  qed
qed

lemma distinct_calls:
  assumes "distinct p" and "distinct q"
  shows "distinct (map (DeleteCall gid) p @ map (\<lambda>k. InsertCall gid \<lparr>Role = role, Email = k\<rparr>) q)"
proof -
  have "distinct (map (DeleteCall gid) p)"
    using assms(1) by (simp add: distinct_map inj_on_def)
  moreover have "distinct (map (\<lambda>k. InsertCall gid \<lparr>Role = role, Email = k\<rparr>) q)"
    using assms(2) by (simp add: distinct_map inj_on_def)
  ultimately show ?thesis by auto
qed

text \<open>
  C9 (reconciliation is set-semantic on its inputs). In every run of
  \<^verbatim>\<open>reconcileMembers\<close>, successful or not, no call is issued twice, whatever repetitions
  the two input lists have, and every call issued is the \<^verbatim>\<open>Delete\<close> of a member of
  \<open>set actual - set desired\<close> or the \<^verbatim>\<open>Insert\<close> of a member of
  \<open>set desired - set actual\<close>. Two runs whose inputs have the same sets of elements (in any
  order, with any multiplicity, under any visiting orders and directories) and which both
  succeed issue the same calls, each once.
\<close>

theorem reconcileMembers_set_semantic:
  assumes "range_keys rng" and "range_keys rng'"
    and "set cfgMembers' = set cfgMembers" and "set apiMembers' = set apiMembers"
    and "reconcileMembers rng cfgMembers apiMembers config gid role w = (res, w1)"
    and "reconcileMembers rng' cfgMembers' apiMembers' config' gid role v = (res', v1)"
  shows "distinct (map fst (issued w w1)) \<and>
         set (map fst (issued w w1))
           \<subseteq> DeleteCall gid ` (set apiMembers - set cfgMembers)
             \<union> (\<lambda>k. InsertCall gid \<lparr>Role = role, Email = k\<rparr>) ` (set cfgMembers - set apiMembers) \<and>
         (res = None \<and> res' = None \<longrightarrow>
            mset (map fst (issued w w1)) = mset (map fst (issued v v1)))"
proof -
  define R where "R = removed rng cfgMembers apiMembers"
  define A where "A = added rng cfgMembers apiMembers"
  define R' where "R' = removed rng' cfgMembers' apiMembers'"
  define A' where "A' = added rng' cfgMembers' apiMembers'"
  have R: "distinct R" "set R = set apiMembers - set cfgMembers"
    unfolding R_def by (rule removed_props [OF assms(1)])+
  have A: "distinct A" "set A = set cfgMembers - set apiMembers"
    unfolding A_def by (rule added_props [OF assms(1)])+
  have R': "distinct R'" "set R' = set apiMembers' - set cfgMembers'"
    unfolding R'_def by (rule removed_props [OF assms(2)])+
  have A': "distinct A'" "set A' = set cfgMembers' - set apiMembers'"
    unfolding A'_def by (rule added_props [OF assms(2)])+
  from reconcileMembers_calls [OF assms(1,5), folded R_def A_def] obtain p q where
    pq: "prefix p R" "prefix q A"
    and calls: "map fst (issued w w1)
             = map (DeleteCall gid) p @ map (\<lambda>k. InsertCall gid \<lparr>Role = role, Email = k\<rparr>) q"
    and full: "res = None \<longrightarrow> p = R \<and> q = A"
    by (elim exE conjE)
  from reconcileMembers_calls [OF assms(2,6), folded R'_def A'_def] obtain p' q' where
    calls': "map fst (issued v v1)
             = map (DeleteCall gid) p' @ map (\<lambda>k. InsertCall gid \<lparr>Role = role, Email = k\<rparr>) q'"
    and full': "res' = None \<longrightarrow> p' = R' \<and> q' = A'"
    by (elim exE conjE)
  from pq R(1) A(1) have dpq: "distinct p" "distinct q"
    by (auto elim!: prefixE)
  have one: "distinct (map fst (issued w w1))"
    unfolding calls using dpq by (rule distinct_calls)
  from pq R(2) A(2) have "set p \<subseteq> set apiMembers - set cfgMembers"
    "set q \<subseteq> set cfgMembers - set apiMembers"
    using set_mono_prefix by blast+
  then have two: "set (map fst (issued w w1))
           \<subseteq> DeleteCall gid ` (set apiMembers - set cfgMembers)
             \<union> (\<lambda>k. InsertCall gid \<lparr>Role = role, Email = k\<rparr>) ` (set cfgMembers - set apiMembers)"
    unfolding calls by auto
  have three: "mset (map fst (issued w w1)) = mset (map fst (issued v v1))"
    if "res = None \<and> res' = None"
  proof -
    from that full full' have eq: "p = R" "q = A" "p' = R'" "q' = A'" by simp_all
    from R R' assms(3,4) have "mset R = mset R'"
      by (simp add: set_eq_iff_mset_eq_distinct [symmetric])
    moreover from A A' assms(3,4) have "mset A = mset A'"
      by (simp add: set_eq_iff_mset_eq_distinct [symmetric])
    ultimately show ?thesis
      unfolding calls calls' eq by simp
  qed
  from one two three show ?thesis by simp
qed

theorem reconcileMembers_set_semantic_witness:
  "range_keys rev \<and> range_keys id \<and>
   set [''b@x'', ''a@x'', ''b@x'', ''a@x''] = set [''a@x'', ''b@x''] \<and>
   set [''c@x'', ''c@x'', ''b@x''] = set [''b@x'', ''c@x''] \<and>
   fst (reconcileMembers rev [''a@x'', ''b@x''] [''b@x'', ''c@x''] fakeDirectory ''g'' ''MEMBER''
      sampleWorld) = None \<and>
   fst (reconcileMembers id [''b@x'', ''a@x'', ''b@x'', ''a@x''] [''c@x'', ''c@x'', ''b@x'']
      fakeDirectory ''g'' ''MEMBER'' sampleWorld) = None \<and>
   map fst (issued sampleWorld (snd (reconcileMembers id [''b@x'', ''a@x'', ''b@x'', ''a@x'']
      [''c@x'', ''c@x'', ''b@x''] fakeDirectory ''g'' ''MEMBER'' sampleWorld)))
     = [DeleteCall ''g'' ''c@x'', InsertCall ''g'' \<lparr>Role = ''MEMBER'', Email = ''a@x''\<rparr>] \<and>
   mset (map fst (issued sampleWorld (snd (reconcileMembers rev [''a@x'', ''b@x'']
      [''b@x'', ''c@x''] fakeDirectory ''g'' ''MEMBER'' sampleWorld))))
     = mset [DeleteCall ''g'' ''c@x'', InsertCall ''g'' \<lparr>Role = ''MEMBER'', Email = ''a@x''\<rparr>]"
proof -
  let ?w1 = "\<lparr>remote = [((''g'', ''a@x''), ''MEMBER''), ((''g'', ''b@x''), ''MEMBER'')],
          trace = [okDelete ''g'' ''c@x'', okInsert ''g'' ''MEMBER'' ''a@x'']\<rparr>"
  have id: "range_keys id"
    by (simp add: range_keys_def)
  have cfg: "set [''b@x'', ''a@x'', ''b@x'', ''a@x''] = set [''a@x'', ''b@x'']"
    and api: "set [''c@x'', ''c@x'', ''b@x''] = set [''b@x'', ''c@x'']"
    by auto
  obtain w1 where run: "reconcileMembers rev [''a@x'', ''b@x''] [''b@x'', ''c@x''] fakeDirectory
      ''g'' ''MEMBER'' sampleWorld = (None, w1)"
    by (simp add: run_defs)
  have run': "reconcileMembers id [''b@x'', ''a@x'', ''b@x'', ''a@x''] [''c@x'', ''c@x'', ''b@x'']
      fakeDirectory ''g'' ''MEMBER'' sampleWorld = (None, ?w1)"
    by (simp add: run_defs)
  have new: "issued sampleWorld ?w1 = [okDelete ''g'' ''c@x'', okInsert ''g'' ''MEMBER'' ''a@x'']"
    by (simp add: issued_def sampleWorld_def)
  from reconcileMembers_set_semantic [OF range_keys_rev id cfg api run run'] run run' new
    range_keys_rev id
  show ?thesis by (simp add: insert_commute)
qed

section \<open>Round trip on directories that behave as a store\<close>

lemma map_of_filter_key:
  "map_of (filter (\<lambda>(key, r). key \<noteq> k0) s) = (map_of s)(k0 := None)"
  by (induction s) (auto simp: fun_eq_iff)

lemma fake_List_held:
  "Email ` {member \<in> set (map (\<lambda>((g, e), r). \<lparr>Role = r, Email = e\<rparr>)
       (filter (\<lambda>((g, e), r). g = gid \<and> r = role \<and> map_of s (g, e) = Some r) s)).
       Role member = role} = held (map_of s) gid role"
  by (force simp: held_def dest: map_of_SomeD)

lemma fake_List_store:
  "\<exists>records st'. fake_List gid role s = (Inr records, st') \<and> map_of st' = map_of s \<and>
     Email ` {member \<in> set records. Role member = role} = held (map_of s) gid role"
proof -
  let ?records = "map (\<lambda>((g, e), r). \<lparr>Role = r, Email = e\<rparr>)
       (filter (\<lambda>((g, e), r). g = gid \<and> r = role \<and> map_of s (g, e) = Some r) s)"
  have "fake_List gid role s = (Inr ?records, s) \<and> map_of s = map_of s \<and>
     Email ` {member \<in> set ?records. Role member = role} = held (map_of s) gid role"
    using fake_List_held [of gid role s] by (simp only: fake_List_def simp_thms)
  then show ?thesis by (intro exI)
qed


lemma store_adapter_fakeDirectory: "store_adapter fakeDirectory map_of"
proof -
  have list: "Members_List fakeDirectory = fake_List"
    and ins: "Members_Insert fakeDirectory gid member st = (Inr created, st') \<Longrightarrow>
      map_of st' = (map_of st)((gid, Email member) \<mapsto> Role member)"
    and del: "Members_Delete fakeDirectory gid k st = (None, st') \<Longrightarrow>
      map_of st' = (map_of st)((gid, k) := None)"
    for gid member st created st' k
    by (auto simp: fakeDirectory_def fake_Insert_def fake_Delete_def map_of_filter_key
        split: if_splits)
  show ?thesis
    unfolding store_adapter_def list using fake_List_store ins del by blast
qed

















end
